theory Spec2Isabelle
  imports Main "HOL-Library.AList"
begin

text \<open>
  A model of the autonomous subsidy agent of \<open>agent-ai-autonomous.js\<close> (class
  \<open>RVOAgentAIAutonomous\<close>): link harvesting, plan synthesis and validation, plan
  execution, classification, and \<open>analyzeSubsidy\<close>, which runs them in a row. Definitions
  carry the names of the methods they follow.
\<close>

section \<open>Values of the language\<close>

text \<open>
  The scraping plan and the requirement set are whatever \<open>JSON.parse\<close> makes of the
  oracle's text, so they are modelled as untyped values. An object is the list of its own
  properties in insertion order; \<open>JUndefined\<close> is what reading a missing property gives.
  Numbers are the integer counts the plan format uses.
\<close>

datatype jsval =
    JUndefined
  | JNull
  | JBool bool
  | JNum int
  | JStr string
  | JArr "jsval list"
  | JObj "(string \<times> jsval) list"

datatype error =
    TypeError
  | SyntaxError
  | ScrapeError string

text \<open>
  \<open>v.k\<close> for the property names the agent reads (\<open>url\<close>, \<open>sub_pages\<close>, \<open>documents\<close>, ...):
  reading from \<open>null\<close> or \<open>undefined\<close> raises, an object answers with its own property,
  and strings, numbers, booleans and arrays have no property of these names.
\<close>

fun read_prop :: "jsval \<Rightarrow> string \<Rightarrow> jsval" where
  "read_prop (JObj kvs) k = (case map_of kvs k of None \<Rightarrow> JUndefined | Some v \<Rightarrow> v)"
| "read_prop _ k = JUndefined"

definition nullish :: "jsval \<Rightarrow> bool" where
  "nullish v = (v = JNull \<or> v = JUndefined)"

definition get_prop :: "jsval \<Rightarrow> string \<Rightarrow> error + jsval" where
  "get_prop v k = (if nullish v then Inl TypeError else Inr (read_prop v k))"

text \<open>Truthiness, and \<open>a || b\<close>.\<close>

fun truthy :: "jsval \<Rightarrow> bool" where
  "truthy JUndefined = False"
| "truthy JNull = False"
| "truthy (JBool b) = b"
| "truthy (JNum n) = (n \<noteq> 0)"
| "truthy (JStr s) = (s \<noteq> [])"
| "truthy (JArr _) = True"
| "truthy (JObj _) = True"

definition or_else :: "jsval \<Rightarrow> jsval \<Rightarrow> jsval" where
  "or_else a b = (if truthy a then a else b)"

text \<open>
  Conversion to a string, as a template literal \<open>`${v}`\<close> does it, and conversion to a
  number, as \<open>slice(0, v)\<close> does it, both raise a \<open>TypeError\<close> for the same values. An
  object is converted through its \<open>toString\<close>, and an own property of that name, which in
  a parsed value is never a function, leaves the object without a primitive value. An
  array is converted by joining the conversions of its elements, \<open>null\<close> apart. Every
  other value converts.
\<close>

fun to_string_raises :: "jsval \<Rightarrow> bool" where
  "to_string_raises (JObj kvs) = (''toString'' \<in> set (map fst kvs))"
| "to_string_raises (JArr xs) = (\<exists>x \<in> set xs. to_string_raises x)"
| "to_string_raises v = False"

text \<open>The own properties that an object spread \<open>{...v}\<close> copies.\<close>

fun own_props :: "jsval \<Rightarrow> (string \<times> jsval) list" where
  "own_props (JObj kvs) = kvs"
| "own_props _ = []"

section \<open>Strings\<close>

text \<open>
  Strings are lists of 8-bit characters, read as Latin-1 code units. White space is what
  \<open>trim\<close> and the regular-expression class \<open>\s\<close> take for it in that range.
\<close>

definition is_space :: "char \<Rightarrow> bool" where
  "is_space c = (of_char c \<in> {9, 10, 11, 12, 13, 32, 160 :: nat})"

definition trim :: "string \<Rightarrow> string" where
  "trim s = rev (dropWhile is_space (rev (dropWhile is_space s)))"

definition toLowerChar :: "char \<Rightarrow> char" where
  "toLowerChar c =
     (let n = (of_char c :: nat) in
      if (65 \<le> n \<and> n \<le> 90) \<or> (192 \<le> n \<and> n \<le> 222 \<and> n \<noteq> 215)
      then char_of (n + 32) else c)"

definition toLowerCase :: "string \<Rightarrow> string" where
  "toLowerCase s = map toLowerChar s"

definition startsWith :: "string \<Rightarrow> string \<Rightarrow> bool" where
  "startsWith s p = (take (length p) s = p)"

fun str_includes :: "string \<Rightarrow> string \<Rightarrow> bool" where
  "str_includes [] sub = (sub = [])"
| "str_includes (c # cs) sub = (startsWith (c # cs) sub \<or> str_includes cs sub)"

fun indexOf :: "string \<Rightarrow> string \<Rightarrow> int" where
  "indexOf [] sub = (if sub = [] then 0 else - 1)"
| "indexOf (c # cs) sub =
     (if startsWith (c # cs) sub then 0
      else (let i = indexOf cs sub in if i < 0 then - 1 else i + 1))"

fun lastIndexOf :: "string \<Rightarrow> string \<Rightarrow> int" where
  "lastIndexOf [] sub = (if sub = [] then 0 else - 1)"
| "lastIndexOf (c # cs) sub =
     (let i = lastIndexOf cs sub in
      if 0 \<le> i then i + 1 else if startsWith (c # cs) sub then 0 else - 1)"

text \<open>\<open>s.substring(a, b)\<close> for \<open>0 \<le> a \<le> b\<close>, the only way the agent calls it.\<close>

definition substring :: "string \<Rightarrow> int \<Rightarrow> int \<Rightarrow> string" where
  "substring s a b = take (nat b - nat a) (drop (nat a) s)"

text \<open>\<open>s.replace(/\s+/g, ' ')\<close>: every maximal run of white space becomes one blank.\<close>

fun collapse_spaces :: "string \<Rightarrow> string" where
  "collapse_spaces [] = []"
| "collapse_spaces [c] = (if is_space c then [CHR '' ''] else [c])"
| "collapse_spaces (c # d # cs) =
     (if is_space c
      then (if is_space d then collapse_spaces (d # cs)
            else CHR '' '' # collapse_spaces (d # cs))
      else c # collapse_spaces (d # cs))"

text \<open>\<open>s.split('/').pop()\<close>: what follows the last slash.\<close>

definition last_segment :: "string \<Rightarrow> string" where
  "last_segment s = rev (takeWhile (\<lambda>c. c \<noteq> CHR ''/'') (rev s))"

section \<open>Plan validation\<close>

record link =
  link_url :: string
  link_text :: string
  link_href :: string

text \<open>\<open>Set.prototype.has\<close> on the set of harvested urls, which holds strings only.\<close>

fun url_set_has :: "string set \<Rightarrow> jsval \<Rightarrow> bool" where
  "url_set_has urls (JStr u) = (u \<in> urls)"
| "url_set_has urls _ = False"

text \<open>\<open>Array.prototype.filter\<close> with a callback that may raise.\<close>

fun js_filter :: "('a \<Rightarrow> error + bool) \<Rightarrow> 'a list \<Rightarrow> error + 'a list" where
  "js_filter f [] = Inr []"
| "js_filter f (x # xs) =
     (case f x of
        Inl e \<Rightarrow> Inl e
      | Inr keep \<Rightarrow>
          (case js_filter f xs of
             Inl e \<Rightarrow> Inl e
           | Inr ys \<Rightarrow> Inr (if keep then x # ys else ys)))"

definition is_valid_sub_page :: "string set \<Rightarrow> jsval \<Rightarrow> error + bool" where
  "is_valid_sub_page actualUrls subPage =
     (case get_prop subPage ''url'' of
        Inl e \<Rightarrow> Inl e
      | Inr u \<Rightarrow> Inr (url_set_has actualUrls u))"

text \<open>
  \<open>validateScrapingPlan\<close> (lines 507-521): \<open>plan.sub_pages.filter(...)\<close> raises unless \<open>sub_pages\<close> is an
  array (only an array has a \<open>filter\<close> method; only an object has a \<open>sub_pages\<close> array),
  and the result is \<open>{...plan, sub_pages: validSubPages}\<close>.
\<close>

definition validateScrapingPlan :: "jsval \<Rightarrow> link list \<Rightarrow> error + jsval" where
  "validateScrapingPlan plan actualLinks =
     (let actualUrls = set (map link_url actualLinks) in
      case get_prop plan ''sub_pages'' of
        Inl e \<Rightarrow> Inl e
      | Inr (JArr subs) \<Rightarrow>
          (case js_filter (is_valid_sub_page actualUrls) subs of
             Inl e \<Rightarrow> Inl e
           | Inr validSubPages \<Rightarrow>
               Inr (JObj (AList.update ''sub_pages'' (JArr validSubPages) (own_props plan))))
      | Inr _ \<Rightarrow> Inl TypeError)"


section \<open>The world outside the agent\<close>

text \<open>
  The target site, the markup library, the document libraries, \<open>JSON.parse\<close> and the
  reasoning oracle are parameters. The site may answer the same request differently each
  time, so its answer depends on how many requests the run has sent before. A request
  either fails in the network or has a response with its \<open>ok\<close> flag and its body.
  The HTTP library sends a request only to a url it supports (absolute, with the scheme
  \<open>http\<close> or \<open>https\<close>) and raises for any other before anything is sent.
  The oracle is opaque: each of its two calls either raises (or has no text to read) or
  replies with a text, whatever the prompt was; the prompt texts are not modelled. The
  client object exists whenever the module has loaded, so the two \<open>if (!openai)\<close> exits
  are never taken.
\<close>

datatype meth = GET | HEAD

datatype response = NetworkError | Response bool string

datatype oracle_outcome = OracleFails | OracleReplies string

record env =
  urlSupported :: "string \<Rightarrow> bool"
  site :: "nat \<Rightarrow> meth \<Rightarrow> string \<Rightarrow> response"
  anchors :: "string \<Rightarrow> (string \<times> string) list"
  h1Text :: "string \<Rightarrow> string"
  titleText :: "string \<Rightarrow> string"
  bodyText :: "string \<Rightarrow> string"
  pdfParse :: "string \<Rightarrow> string option"
  mammothRawText :: "string \<Rightarrow> string option"
  xlsxSheets :: "string \<Rightarrow> (string \<times> string) list option"
  jsonParse :: "string \<Rightarrow> jsval option"
  sliceCount :: "jsval \<Rightarrow> nat \<Rightarrow> nat"
  planOracle :: oracle_outcome
  classifyOracle :: oracle_outcome
  attestationSchema :: jsval

text \<open>
  \<open>anchors html\<close> is \<open>$('a[href]')\<close>: the \<open>href\<close> attribute and the text of each anchor in
  document order. \<open>bodyText\<close> is the text of \<open>body\<close> once the navigation regions are
  removed. The three document libraries answer \<open>None\<close> when they raise; \<open>xlsxSheets\<close>
  gives each sheet's name and its text rendering. \<open>sliceCount v n\<close> is the number of
  leading elements \<open>slice(0, v)\<close> keeps of \<open>n\<close> when \<open>v\<close> is not a number.
  \<open>attestationSchema\<close> is what the constructor loaded, \<open>null\<close> when loading failed.
\<close>

text \<open>
  The state of an agent is its \<open>visitedUrls\<close>. The model adds the log of the requests sent
  so far, oldest first: it is the clock of the site and it is what the claims about
  fetching count.
\<close>

record agent_state =
  visitedUrls :: "string set"
  requests :: "(meth \<times> string) list"

definition baseUrl :: string where
  "baseUrl = ''https://www.rvo.nl''"

definition fetch :: "env \<Rightarrow> agent_state \<Rightarrow> meth \<Rightarrow> string \<Rightarrow> response \<times> agent_state" where
  "fetch e st m u =
     (if urlSupported e u
      then (site e (length (requests st)) m u, st\<lparr>requests := requests st @ [(m, u)]\<rparr>)
      else (NetworkError, st))"

text \<open>\<open>sent e m u\<close> is what one call of \<open>fetch\<close> adds to the log.\<close>

definition sent :: "env \<Rightarrow> meth \<Rightarrow> string \<Rightarrow> (meth \<times> string) list" where
  "sent e m u = (if urlSupported e u then [(m, u)] else [])"

section \<open>Link harvesting\<close>

text \<open>
  \<open>extractActualLinks\<close> (lines 340-376): \<open>actual_link\<close> is the body of its \<open>each\<close>, with
  \<open>None\<close> when nothing is pushed, and \<open>uniqueLinks\<close> its final \<open>filter\<close>, which keeps a link
  when it is the first of its url.
\<close>

definition actual_link :: "string set \<Rightarrow> string \<times> string \<Rightarrow> link option" where
  "actual_link visited a =
     (let href = fst a; text = trim (snd a);
          push = (\<lambda>fullUrl.
            if str_includes fullUrl ''rvo.nl'' \<and> fullUrl \<notin> visited
            then Some \<lparr>link_url = fullUrl, link_text = take 100 text, link_href = href\<rparr>
            else None)
      in if href \<noteq> [] \<and> text \<noteq> [] then
           (if startsWith href ''/'' then push (baseUrl @ href)
            else if startsWith href ''http'' then push href
            else if startsWith href ''#'' then None
            else push href)
         else None)"

fun findIndex :: "('a \<Rightarrow> bool) \<Rightarrow> 'a list \<Rightarrow> int" where
  "findIndex P [] = - 1"
| "findIndex P (x # xs) =
     (if P x then 0 else (let i = findIndex P xs in if i < 0 then - 1 else i + 1))"

definition uniqueLinks :: "link list \<Rightarrow> link list" where
  "uniqueLinks links =
     map snd (filter (\<lambda>(index, l). int index = findIndex (\<lambda>l'. link_url l' = link_url l) links)
                (enumerate 0 links))"

definition extractActualLinks :: "env \<Rightarrow> agent_state \<Rightarrow> string \<Rightarrow> link list" where
  "extractActualLinks e st html =
     uniqueLinks (List.map_filter (actual_link (visitedUrls st)) (anchors e html))"

text \<open>\<open>extractDocumentLinks\<close> (lines 381-413) and \<open>getDocumentType\<close> (lines 418-425).\<close>

record document_link = link +
  link_type :: string

definition documentExtensions :: "string list" where
  "documentExtensions = [''.pdf'', ''.doc'', ''.docx'', ''.xls'', ''.xlsx'', ''.ppt'', ''.pptx'']"

definition getDocumentType :: "string \<Rightarrow> string" where
  "getDocumentType url =
     (let urlLower = toLowerCase url in
      if str_includes urlLower ''.pdf'' then ''pdf''
      else if str_includes urlLower ''.docx'' \<or> str_includes urlLower ''.doc'' then ''docx''
      else if str_includes urlLower ''.xlsx'' \<or> str_includes urlLower ''.xls'' then ''xlsx''
      else if str_includes urlLower ''.pptx'' \<or> str_includes urlLower ''.ppt'' then ''pptx''
      else ''unknown'')"

definition document_link_of :: "string set \<Rightarrow> string \<times> string \<Rightarrow> document_link option" where
  "document_link_of visited a =
     (let href = fst a; text = trim (snd a) in
      if href \<noteq> [] then
        (let fullUrl = (if startsWith href ''/'' then baseUrl @ href else href);
             isDocument = list_ex (\<lambda>ext. str_includes (toLowerCase fullUrl) ext) documentExtensions
         in if isDocument \<and> fullUrl \<notin> visited
            then Some \<lparr>link_url = fullUrl, link_text = take 100 text, link_href = href,
                       link_type = getDocumentType fullUrl\<rparr>
            else None)
      else None)"

definition extractDocumentLinks :: "env \<Rightarrow> agent_state \<Rightarrow> string \<Rightarrow> document_link list" where
  "extractDocumentLinks e st html =
     List.map_filter (document_link_of (visitedUrls st)) (anchors e html)"

section \<open>Fetching pages and documents\<close>

record page_data =
  page_url :: string
  page_title :: string
  page_html :: string
  page_text :: string

record page_record = page_data +
  page_priority :: jsval
  page_reason :: jsval

record doc_record =
  doc_url :: string
  doc_title :: string
  doc_text :: string
  doc_priority :: jsval
  doc_reason :: jsval
  doc_type :: string

text \<open>
  \<open>checkUrlExists\<close> (lines 557-569): the \<open>ok\<close> flag of a HEAD request, \<open>false\<close> when the
  request raises.
\<close>

definition checkUrlExists :: "env \<Rightarrow> agent_state \<Rightarrow> string \<Rightarrow> bool \<times> agent_state" where
  "checkUrlExists e st url =
     (case fetch e st HEAD url of
        (Response ok body, st') \<Rightarrow> (ok, st')
      | (NetworkError, st') \<Rightarrow> (False, st'))"

text \<open>\<open>scrapePage\<close> (lines 574-608): raises unless the GET request has an \<open>ok\<close> response.\<close>

definition scrapePage :: "env \<Rightarrow> agent_state \<Rightarrow> string \<Rightarrow> (error + page_data) \<times> agent_state" where
  "scrapePage e st url =
     (case fetch e st GET url of
        (Response True html, st') \<Rightarrow>
          (let h1 = trim (h1Text e html);
               title = (if h1 \<noteq> [] then h1 else trim (titleText e html));
               textContent = trim (collapse_spaces (bodyText e html))
           in (Inr \<lparr>page_url = url, page_title = title, page_html = html,
                      page_text = textContent\<rparr>, st'))
      | (_, st') \<Rightarrow> (Inl (ScrapeError url), st'))"

text \<open>The three extractors (lines 463-502); each gives the empty text when its library raises.\<close>

definition extractPdfText :: "env \<Rightarrow> string \<Rightarrow> string" where
  "extractPdfText e buffer = (case pdfParse e buffer of None \<Rightarrow> [] | Some t \<Rightarrow> t)"

definition extractDocxText :: "env \<Rightarrow> string \<Rightarrow> string" where
  "extractDocxText e buffer = (case mammothRawText e buffer of None \<Rightarrow> [] | Some t \<Rightarrow> t)"

definition extractXlsxText :: "env \<Rightarrow> string \<Rightarrow> string" where
  "extractXlsxText e buffer =
     (case xlsxSheets e buffer of
        None \<Rightarrow> []
      | Some sheets \<Rightarrow>
          foldl (\<lambda>text (sheetName, sheetText).
                   text @ [CHR 0x0A] @ ''=== Sheet: '' @ sheetName @ '' ==='' @ [CHR 0x0A]
                        @ sheetText @ [CHR 0x0A])
                [] sheets)"

text \<open>
  \<open>extractDocumentText\<close> (lines 430-458): the document is downloaded whatever its type; a
  failed download and a type without an extractor both give the empty text.
\<close>

definition extractDocumentText ::
  "env \<Rightarrow> agent_state \<Rightarrow> string \<Rightarrow> string \<Rightarrow> string \<times> agent_state" where
  "extractDocumentText e st url documentType =
     (case fetch e st GET url of
        (Response True buffer, st') \<Rightarrow>
          ((if documentType = ''pdf'' then extractPdfText e buffer
            else if documentType = ''docx'' then extractDocxText e buffer
            else if documentType = ''xlsx'' then extractXlsxText e buffer
            else []), st')
      | (_, st') \<Rightarrow> ([], st'))"

section \<open>Executing a plan\<close>

text \<open>
  \<open>aiExecuteScrapingPlan\<close> (lines 180-251) in its three phases: the main page, the loop over
  the sub-pages and the loop over the documents. Every \<open>try\<close> of the method is inside one
  of the phases; the heads of the two loops are outside any \<open>try\<close>.

  Requests are modelled for urls that are strings. For a url that is not a string the
  visited set, which holds strings only, does not have it; the document loop cannot compute
  its type (the \<open>TypeError\<close> is caught in the loop); and for a page the HTTP library is
  taken to refuse the target before anything is sent.
\<close>

definition scrape_main_page ::
  "env \<Rightarrow> jsval \<Rightarrow> agent_state \<Rightarrow> page_record list \<times> agent_state" where
  "scrape_main_page e plan st =
     (case get_prop plan ''main_page'' of
        Inl err \<Rightarrow> ([], st)
      | Inr main_page \<Rightarrow>
          (case get_prop main_page ''url'' of
             Inr (JStr url) \<Rightarrow>
               (case scrapePage e st url of
                  (Inr mainPage, st') \<Rightarrow>
                    ([page_data.extend mainPage
                        \<lparr>page_priority = read_prop main_page ''priority'',
                         page_reason = JStr ''Main subsidy page''\<rparr>], st')
                | (Inl err, st') \<Rightarrow> ([], st'))
           | _ \<Rightarrow> ([], st)))"

definition scrape_sub_page ::
  "env \<Rightarrow> page_record list \<times> agent_state \<Rightarrow> jsval \<Rightarrow> page_record list \<times> agent_state" where
  "scrape_sub_page e acc subPage =
     (case acc of (allPages, st) \<Rightarrow>
        (case get_prop subPage ''url'' of
           Inr (JStr url) \<Rightarrow>
             (if url \<notin> visitedUrls st then
                (case checkUrlExists e st url of
                   (True, st1) \<Rightarrow>
                     (case scrapePage e st1 url of
                        (Inr pageData, st2) \<Rightarrow>
                          (allPages @ [page_data.extend pageData
                              \<lparr>page_priority = read_prop subPage ''priority'',
                               page_reason = read_prop subPage ''reason''\<rparr>],
                           st2\<lparr>visitedUrls := insert url (visitedUrls st2)\<rparr>)
                      | (Inl err, st2) \<Rightarrow> (allPages, st2))
                 | (False, st1) \<Rightarrow> (allPages, st1))
              else (allPages, st))
         | _ \<Rightarrow> (allPages, st)))"

definition process_document ::
  "env \<Rightarrow> doc_record list \<times> agent_state \<Rightarrow> jsval \<Rightarrow> doc_record list \<times> agent_state" where
  "process_document e acc document =
     (case acc of (allDocuments, st) \<Rightarrow>
        (case get_prop document ''url'' of
           Inr (JStr url) \<Rightarrow>
             (if url \<notin> visitedUrls st then
                (let documentType = getDocumentType url in
                 case extractDocumentText e st url documentType of
                   (documentText, st1) \<Rightarrow>
                     (if documentText \<noteq> [] then
                        (allDocuments @
                           [\<lparr>doc_url = url,
                             doc_title = (if last_segment url \<noteq> [] then last_segment url
                                          else ''Document''),
                             doc_text = documentText,
                             doc_priority = read_prop document ''priority'',
                             doc_reason = read_prop document ''reason'',
                             doc_type = documentType\<rparr>],
                         st1\<lparr>visitedUrls := insert url (visitedUrls st1)\<rparr>)
                      else (allDocuments, st1)))
              else (allDocuments, st))
         | _ \<Rightarrow> (allDocuments, st)))"

text \<open>
  \<open>v.slice(0, limit)\<close> as the head of a \<open>for ... of\<close> loop: an array gives its elements,
  a string its characters, and any other value has no \<open>slice\<close> method. The limit is
  converted to a number, which raises when it has no primitive value.
\<close>

definition slice0 :: "env \<Rightarrow> jsval \<Rightarrow> 'a list \<Rightarrow> 'a list" where
  "slice0 e limit xs =
     take (case limit of
             JNum n \<Rightarrow> (if n < 0 then nat (int (length xs) + n) else nat n)
           | _ \<Rightarrow> sliceCount e limit (length xs)) xs"

definition slice_targets :: "env \<Rightarrow> jsval \<Rightarrow> jsval \<Rightarrow> error + jsval list" where
  "slice_targets e v limit =
     (case v of
        JArr xs \<Rightarrow>
          (if to_string_raises limit then Inl TypeError else Inr (slice0 e limit xs))
      | JStr s \<Rightarrow>
          (if to_string_raises limit then Inl TypeError
           else Inr (slice0 e limit (map (\<lambda>c. JStr [c]) s)))
      | _ \<Rightarrow> Inl TypeError)"

record scraped_data =
  sd_mainPage :: "page_record option"
  sd_allPages :: "page_record list"
  sd_allDocuments :: "doc_record list"

definition scrape_sub_pages ::
  "env \<Rightarrow> jsval list \<Rightarrow> page_record list \<times> agent_state \<Rightarrow> page_record list \<times> agent_state" where
  "scrape_sub_pages e subPages acc = foldl (scrape_sub_page e) acc subPages"

definition process_documents ::
  "env \<Rightarrow> jsval list \<Rightarrow> doc_record list \<times> agent_state \<Rightarrow> doc_record list \<times> agent_state" where
  "process_documents e documents acc = foldl (process_document e) acc documents"

definition aiExecuteScrapingPlan ::
  "env \<Rightarrow> jsval \<Rightarrow> agent_state \<Rightarrow> (error + scraped_data) \<times> agent_state" where
  "aiExecuteScrapingPlan e plan st =
     (case scrape_main_page e plan st of (mainPages, st1) \<Rightarrow>
        (case get_prop plan ''sub_pages'' of
           Inl err \<Rightarrow> (Inl err, st1)
         | Inr sub_pages \<Rightarrow>
             (case slice_targets e sub_pages (or_else (read_prop plan ''max_pages'') (JNum 8)) of
                Inl err \<Rightarrow> (Inl err, st1)
              | Inr subPages \<Rightarrow>
                  (case scrape_sub_pages e subPages (mainPages, st1) of (allPages, st2) \<Rightarrow>
                     (case slice_targets e (read_prop plan ''documents'')
                             (or_else (read_prop plan ''max_documents'') (JNum 5)) of
                        Inl err \<Rightarrow> (Inl err, st2)
                      | Inr documents \<Rightarrow>
                          (case process_documents e documents ([], st2) of
                             (allDocuments, st3) \<Rightarrow>
                               (Inr \<lparr>sd_mainPage = (case allPages of [] \<Rightarrow> None | p # ps \<Rightarrow> Some p),
                                      sd_allPages = allPages,
                                      sd_allDocuments = allDocuments\<rparr>, st3)))))))"

section \<open>Plan synthesis\<close>

text \<open>\<open>createFallbackScrapingPlan\<close> (lines 526-539) and \<open>aiCreateScrapingPlan\<close> (lines 74-175).\<close>

definition createFallbackScrapingPlan :: "string \<Rightarrow> page_data \<Rightarrow> jsval" where
  "createFallbackScrapingPlan mainUrl mainPageData =
     JObj [(''main_page'', JObj [(''url'', JStr mainUrl),
                                 (''title'', JStr (page_title mainPageData)),
                                 (''priority'', JStr ''high'')]),
           (''sub_pages'', JArr []),
           (''max_pages'', JNum 1),
           (''focus_keywords'', JArr [])]"

text \<open>The inner \<open>try\<close>: parse the response and validate the plan.\<close>

definition parse_plan :: "env \<Rightarrow> string \<Rightarrow> link list \<Rightarrow> error + jsval" where
  "parse_plan e response actualLinks =
     (case jsonParse e response of
        None \<Rightarrow> Inl SyntaxError
      | Some plan \<Rightarrow> validateScrapingPlan plan actualLinks)"

text \<open>The outer \<open>catch\<close>: fetch the main page again and fall back.\<close>

definition plan_after_failure ::
  "env \<Rightarrow> string \<Rightarrow> agent_state \<Rightarrow> (error + jsval) \<times> agent_state" where
  "plan_after_failure e mainUrl st =
     (case scrapePage e st mainUrl of
        (Inr mainPageData, st') \<Rightarrow> (Inr (createFallbackScrapingPlan mainUrl mainPageData), st')
      | (Inl err, st') \<Rightarrow> (Inl err, st'))"

definition aiCreateScrapingPlan ::
  "env \<Rightarrow> string \<Rightarrow> agent_state \<Rightarrow> (error + jsval) \<times> agent_state" where
  "aiCreateScrapingPlan e mainUrl st =
     (case scrapePage e st mainUrl of
        (Inr mainPageData, st1) \<Rightarrow>
          (let actualLinks = extractActualLinks e st1 (page_html mainPageData) in
           case planOracle e of
             OracleReplies content \<Rightarrow>
               (case parse_plan e (trim content) actualLinks of
                  Inr validPlan \<Rightarrow> (Inr validPlan, st1)
                | Inl parseError \<Rightarrow>
                    (Inr (createFallbackScrapingPlan mainUrl mainPageData), st1))
           | OracleFails \<Rightarrow> plan_after_failure e mainUrl st1)
      | (Inl err, st1) \<Rightarrow> plan_after_failure e mainUrl st1)"

section \<open>Classification\<close>

text \<open>\<open>fallbackAnalysis\<close> (lines 544-552) and \<open>aiAnalyzeAllData\<close> (lines 256-335).\<close>

record requirement_set =
  attestations :: jsval
  non_attestations :: jsval
  analysis_notes :: jsval

definition fallbackAnalysis :: "scraped_data \<Rightarrow> requirement_set" where
  "fallbackAnalysis scrapedData =
     \<lparr>attestations = JArr [], non_attestations = JArr [],
      analysis_notes = JStr ''Fallback analysis - no hardcoded patterns used''\<rparr>"

definition fence :: string where
  "fence = [CHR 0x60, CHR 0x60, CHR 0x60]"

text \<open>
  \<open>s.match(/```json\s*([\s\S]*?)\s*```/)\<close>: the match starts at the first opening fence and
  its lazy group ends before the white space in front of the next fence, so the group,
  once trimmed, is the trimmed text between the two.
\<close>

definition fenced_json :: "string \<Rightarrow> string option" where
  "fenced_json s =
     (let i = indexOf s (fence @ ''json'') in
      if i < 0 then None
      else (let rest = drop (nat i + 7) s; q = indexOf rest fence in
            if q < 0 then None else Some (trim (take (nat q) rest))))"

definition extract_json :: "string \<Rightarrow> string" where
  "extract_json response =
     (let r0 = trim response;
          r1 = (if str_includes r0 (fence @ ''json'')
                then (case fenced_json r0 of Some inner \<Rightarrow> trim inner | None \<Rightarrow> r0)
                else r0)
      in if str_includes r1 ''{'' \<and> str_includes r1 ''}'' then
           (let startIndex = indexOf r1 ''{''; lastIndex = lastIndexOf r1 ''}'' in
            if startIndex \<noteq> - 1 \<and> lastIndex \<noteq> - 1 \<and> lastIndex > startIndex
            then substring r1 startIndex (lastIndex + 1) else r1)
         else r1)"

text \<open>The inner \<open>try\<close> of the classifier; reading a field of \<open>null\<close> raises into its \<open>catch\<close>.\<close>

definition parse_requirements :: "env \<Rightarrow> scraped_data \<Rightarrow> string \<Rightarrow> requirement_set" where
  "parse_requirements e scrapedData response =
     (case jsonParse e (extract_json response) of
        None \<Rightarrow> fallbackAnalysis scrapedData
      | Some parsed \<Rightarrow>
          (if nullish parsed then fallbackAnalysis scrapedData
           else \<lparr>attestations = or_else (read_prop parsed ''attestations'') (JArr []),
                 non_attestations = or_else (read_prop parsed ''non_attestations'') (JArr []),
                 analysis_notes =
                   or_else (read_prop parsed ''analysis_notes'') (JStr ''AI analysis completed'')\<rparr>))"

text \<open>
  Everything up to the oracle call happens before the \<open>try\<close> (lines 263-279). The content
  is put together with template literals over the title, the reason and the text of each
  page and of each document (lines 264-270); titles, texts and types are strings, and a
  reason is whatever the plan had in that place, so its conversion can raise.
\<close>

definition content_raises :: "scraped_data \<Rightarrow> bool" where
  "content_raises scrapedData =
     ((\<exists>page \<in> set (sd_allPages scrapedData). to_string_raises (page_reason page))
      \<or> (\<exists>doc \<in> set (sd_allDocuments scrapedData). to_string_raises (doc_reason doc)))"

text \<open>
  With a schema loaded, \<open>createSchemaBasedPrompt\<close> (lines 613-620) reads
  \<open>Object.keys(schema)\<close> of its \<open>attestation_schema\<close>, which raises when there is none, and
  converts the value \<open>schema[fieldKey]\<close> of each key to a string: the own properties of an
  object, the elements of an array, the characters of a string, and nothing for a number
  or a boolean. Without a schema the basic prompt is used, which cannot raise.
\<close>

fun schema_labels :: "jsval \<Rightarrow> jsval list" where
  "schema_labels (JObj kvs) = map (\<lambda>fieldKey. read_prop (JObj kvs) fieldKey) (map fst kvs)"
| "schema_labels (JArr xs) = xs"
| "schema_labels (JStr s) = map (\<lambda>c. JStr [c]) s"
| "schema_labels v = []"

definition prompt_raises :: "env \<Rightarrow> bool" where
  "prompt_raises e =
     (truthy (attestationSchema e)
      \<and> (let schema = read_prop (attestationSchema e) ''attestation_schema'' in
           nullish schema \<or> (\<exists>displayName \<in> set (schema_labels schema). to_string_raises displayName)))"

definition aiAnalyzeAllData :: "env \<Rightarrow> scraped_data \<Rightarrow> error + requirement_set" where
  "aiAnalyzeAllData e scrapedData =
     (if content_raises scrapedData then Inl TypeError
      else if prompt_raises e then Inl TypeError
      else (case classifyOracle e of
              OracleReplies content \<Rightarrow> Inr (parse_requirements e scrapedData (trim content))
            | OracleFails \<Rightarrow> Inr (fallbackAnalysis scrapedData)))"

section \<open>The whole analysis\<close>

text \<open>\<open>analyzeSubsidy\<close> (lines 41-69): any raise of a stage becomes the error result.\<close>

record analysis =
  res_url :: string
  res_title :: string
  res_requirements :: requirement_set
  res_pages_analyzed :: nat
  res_ai_scraping_plan :: jsval

datatype result = Failed string error | Analyzed analysis

fun is_error_result :: "result \<Rightarrow> bool" where
  "is_error_result (Failed url err) = True"
| "is_error_result (Analyzed a) = False"

text \<open>\<open>scrapedData.mainPage?.title || 'Unknown'\<close>. The time stamp of a result is left out.\<close>

definition result_title :: "scraped_data \<Rightarrow> string" where
  "result_title scrapedData =
     (case sd_mainPage scrapedData of
        None \<Rightarrow> ''Unknown''
      | Some p \<Rightarrow> (if page_title p \<noteq> [] then page_title p else ''Unknown''))"

definition analyzeSubsidy :: "env \<Rightarrow> string \<Rightarrow> agent_state \<Rightarrow> result \<times> agent_state" where
  "analyzeSubsidy e url st =
     (case aiCreateScrapingPlan e url st of
        (Inl err, st1) \<Rightarrow> (Failed url err, st1)
      | (Inr scrapingPlan, st1) \<Rightarrow>
          (case aiExecuteScrapingPlan e scrapingPlan st1 of
             (Inl err, st2) \<Rightarrow> (Failed url err, st2)
           | (Inr scrapedData, st2) \<Rightarrow>
               (case aiAnalyzeAllData e scrapedData of
                  Inl err \<Rightarrow> (Failed url err, st2)
                | Inr requirements \<Rightarrow>
                    (Analyzed
                       \<lparr>res_url = url,
                        res_title = result_title scrapedData,
                        res_requirements = requirements,
                        res_pages_analyzed = length (sd_allPages scrapedData),
                        res_ai_scraping_plan = scrapingPlan\<rparr>, st2))))"

section \<open>Example inputs\<close>

definition demo_links :: "link list" where
  "demo_links = [\<lparr>link_url = ''https://www.rvo.nl/onderwerpen/a'', link_text = ''Voorwaarden'',
                   link_href = ''/onderwerpen/a''\<rparr>]"

definition demo_plan :: jsval where
  "demo_plan =
     JObj [(''main_page'', JObj [(''url'', JStr ''https://www.rvo.nl/s'')]),
           (''sub_pages'', JArr [JObj [(''url'', JStr ''https://www.rvo.nl/onderwerpen/a'')],
                                 JObj [(''url'', JStr ''https://www.rvo.nl/onderwerpen/fake'')]]),
           (''documents'', JArr [JObj [(''url'', JStr ''https://www.rvo.nl/doc/plan.pdf'')]]),
           (''max_pages'', JNum 8)]"

definition demo_valid_plan :: jsval where
  "demo_valid_plan =
     JObj [(''main_page'', JObj [(''url'', JStr ''https://www.rvo.nl/s'')]),
           (''sub_pages'', JArr [JObj [(''url'', JStr ''https://www.rvo.nl/onderwerpen/a'')]]),
           (''documents'', JArr [JObj [(''url'', JStr ''https://www.rvo.nl/doc/plan.pdf'')]]),
           (''max_pages'', JNum 8)]"


text \<open>
  A small site: a main page with two anchors, a sub-page, a document with text, a document
  without text, a slide deck, and a document that answers the existence probe but whose
  download fails.
\<close>

definition demo_site :: "nat \<Rightarrow> meth \<Rightarrow> string \<Rightarrow> response" where
  "demo_site t m u =
     (if u = ''https://www.rvo.nl/s'' then Response True ''<main>''
      else if u = ''https://www.rvo.nl/onderwerpen/a'' then Response True ''<a>''
      else if u = ''https://www.rvo.nl/doc/plan.pdf'' then Response True ''PDF1''
      else if u = ''https://www.rvo.nl/doc/empty.pdf'' then Response True ''PDF0''
      else if u = ''https://www.rvo.nl/doc/slides.pptx'' then Response True ''PPT''
      else if u = ''https://www.rvo.nl/doc/flaky.pdf''
        then (if m = HEAD then Response True [] else Response False [])
      else NetworkError)"

definition demo_json :: "string \<Rightarrow> jsval option" where
  "demo_json s =
     (if s = ''PLAN'' then Some demo_plan
      else if s = ''{}'' then Some (JObj [])
      else if s = ''{REQ}'' then
        Some (JObj [(''attestations'', JArr [JStr ''chamber_of_commerce_kvk_nummer'']),
                    (''non_attestations'', JArr [JStr ''projectplan'']),
                    (''analysis_notes'', JStr ''ok'')])
      else None)"

definition demo_env :: env where
  "demo_env =
     \<lparr>urlSupported = (\<lambda>u. startsWith u ''http://'' \<or> startsWith u ''https://''),
      site = demo_site,
      anchors = (\<lambda>html. if html = ''<main>''
                         then [(''/onderwerpen/a'', ''Voorwaarden''), (''/doc/plan.pdf'', ''Plan'')]
                         else []),
      h1Text = (\<lambda>html. html),
      titleText = (\<lambda>html. []),
      bodyText = (\<lambda>html. html),
      pdfParse = (\<lambda>buffer. if buffer = ''PDF1'' then Some ''Plan text''
                             else if buffer = ''PDF0'' then Some [] else None),
      mammothRawText = (\<lambda>buffer. None),
      xlsxSheets = (\<lambda>buffer. None),
      jsonParse = demo_json,
      sliceCount = (\<lambda>v n. 0),
      planOracle = OracleReplies ''PLAN'',
      classifyOracle = OracleReplies ''{REQ}'',
      attestationSchema = JNull\<rparr>"

definition fresh :: agent_state where
  "fresh = \<lparr>visitedUrls = {}, requests = []\<rparr>"

definition url_entry :: "string \<Rightarrow> jsval" where
  "url_entry u = JObj [(''url'', JStr u)]"

definition plan_of :: "string list \<Rightarrow> string list \<Rightarrow> jsval" where
  "plan_of subs docs =
     JObj [(''sub_pages'', JArr (map url_entry subs)), (''documents'', JArr (map url_entry docs))]"

definition no_data :: scraped_data where
  "no_data = \<lparr>sd_mainPage = None, sd_allPages = [], sd_allDocuments = []\<rparr>"

text \<open>What the executor collects on the small site for the validated example plan.\<close>

definition demo_scraped :: scraped_data where
  "demo_scraped =
     \<lparr>sd_mainPage =
        Some \<lparr>page_url = ''https://www.rvo.nl/s'', page_title = ''<main>'',
              page_html = ''<main>'', page_text = ''<main>'',
              page_priority = JUndefined, page_reason = JStr ''Main subsidy page''\<rparr>,
      sd_allPages =
        [\<lparr>page_url = ''https://www.rvo.nl/s'', page_title = ''<main>'',
          page_html = ''<main>'', page_text = ''<main>'',
          page_priority = JUndefined, page_reason = JStr ''Main subsidy page''\<rparr>,
         \<lparr>page_url = ''https://www.rvo.nl/onderwerpen/a'', page_title = ''<a>'',
          page_html = ''<a>'', page_text = ''<a>'',
          page_priority = JUndefined, page_reason = JUndefined\<rparr>],
      sd_allDocuments =
        [\<lparr>doc_url = ''https://www.rvo.nl/doc/plan.pdf'', doc_title = ''plan.pdf'',
          doc_text = ''Plan text'', doc_priority = JUndefined, doc_reason = JUndefined,
          doc_type = ''pdf''\<rparr>]\<rparr>"

definition after_planning :: agent_state where
  "after_planning = \<lparr>visitedUrls = {}, requests = [(GET, ''https://www.rvo.nl/s'')]\<rparr>"

definition after_crawl :: agent_state where
  "after_crawl =
     \<lparr>visitedUrls = {''https://www.rvo.nl/doc/plan.pdf'', ''https://www.rvo.nl/onderwerpen/a''},
      requests = [(GET, ''https://www.rvo.nl/s''), (GET, ''https://www.rvo.nl/s''),
                  (HEAD, ''https://www.rvo.nl/onderwerpen/a''),
                  (GET, ''https://www.rvo.nl/onderwerpen/a''),
                  (GET, ''https://www.rvo.nl/doc/plan.pdf'')]\<rparr>"

text \<open>The same world with an oracle that fails, answers with prose, or answers \<open>{}\<close>.\<close>

definition planner_down :: env where
  "planner_down = demo_env\<lparr>planOracle := OracleFails\<rparr>"

definition planner_prose :: env where
  "planner_prose = demo_env\<lparr>planOracle := OracleReplies ''I cannot help with that.''\<rparr>"

definition classifier_down :: env where
  "classifier_down = demo_env\<lparr>classifyOracle := OracleFails\<rparr>"

definition classifier_prose :: env where
  "classifier_prose = demo_env\<lparr>classifyOracle := OracleReplies ''Sorry, { no JSON here''\<rparr>"

definition classifier_partial :: env where
  "classifier_partial = demo_env\<lparr>classifyOracle := OracleReplies ''{}''\<rparr>"

text \<open>
  A plan whose sub-page is a harvested link and whose reason is an object with a property
  \<open>toString\<close>, and what the executor collects for it on the small site.
\<close>

definition odd_plan :: jsval where
  "odd_plan =
     JObj [(''sub_pages'',
            JArr [JObj [(''url'', JStr ''https://www.rvo.nl/onderwerpen/a''),
                        (''reason'', JObj [(''toString'', JNum 1)])]]),
           (''documents'', JArr [])]"

definition odd_scraped :: scraped_data where
  "odd_scraped =
     \<lparr>sd_mainPage =
        Some \<lparr>page_url = ''https://www.rvo.nl/onderwerpen/a'', page_title = ''<a>'',
              page_html = ''<a>'', page_text = ''<a>'',
              page_priority = JUndefined, page_reason = JObj [(''toString'', JNum 1)]\<rparr>,
      sd_allPages =
        [\<lparr>page_url = ''https://www.rvo.nl/onderwerpen/a'', page_title = ''<a>'',
          page_html = ''<a>'', page_text = ''<a>'',
          page_priority = JUndefined, page_reason = JObj [(''toString'', JNum 1)]\<rparr>],
      sd_allDocuments = []\<rparr>"

section \<open>Properties of the validator\<close>

lemma js_filter_is_filter:
  "js_filter f xs = Inr ys \<Longrightarrow> ys = filter (\<lambda>x. f x = Inr True) xs"
proof (induction xs arbitrary: ys)
  case Nil
  then show ?case by simp
next
  case (Cons x xs)
  then show ?case
    by (auto split: sum.splits if_splits)
qed

lemma is_valid_sub_page_True:
  "is_valid_sub_page urls sp = Inr True \<longleftrightarrow>
     \<not> nullish sp \<and> (\<exists>u. read_prop sp ''url'' = JStr u \<and> u \<in> urls)"
  unfolding is_valid_sub_page_def get_prop_def
  by (cases "read_prop sp ''url''") auto

lemma validate_shape:
  assumes "validateScrapingPlan plan links = Inr plan'"
  obtains kvs subs valid where
    "plan = JObj kvs" "map_of kvs ''sub_pages'' = Some (JArr subs)"
    "js_filter (is_valid_sub_page (set (map link_url links))) subs = Inr valid"
    "plan' = JObj (AList.update ''sub_pages'' (JArr valid) kvs)"
proof (cases plan)
  case (JObj kvs)
  with assms show ?thesis
    by (auto simp: validateScrapingPlan_def get_prop_def nullish_def Let_def
        intro!: that split: option.splits jsval.splits sum.splits)
qed (use assms in \<open>auto simp: validateScrapingPlan_def get_prop_def nullish_def\<close>)

lemma read_prop_update:
  "read_prop (JObj (AList.update k v kvs)) k' = (if k' = k then v else read_prop (JObj kvs) k')"
  by (simp add: update_conv')

text \<open>
  Claim C1 (validator soundness). Whenever the validator returns a plan, its \<open>sub_pages\<close>
  are the entries of the given plan, in their order, whose \<open>url\<close> is the url of a harvested
  page link; every entry kept has such a url and every other entry is dropped, whatever
  urls the given plan contains.
\<close>

theorem validate_sound:
  assumes "validateScrapingPlan P L = Inr P'"
  shows "\<exists>subs kept. read_prop P ''sub_pages'' = JArr subs
           \<and> read_prop P' ''sub_pages'' = JArr kept
           \<and> kept = filter (\<lambda>sp. \<exists>u. read_prop sp ''url'' = JStr u \<and> u \<in> link_url ` set L) subs
           \<and> (\<forall>sp \<in> set kept. \<exists>u. read_prop sp ''url'' = JStr u \<and> u \<in> link_url ` set L)"
proof -
  from assms obtain kvs subs valid where
    P: "P = JObj kvs" and sp: "map_of kvs ''sub_pages'' = Some (JArr subs)"
    and f: "js_filter (is_valid_sub_page (set (map link_url L))) subs = Inr valid"
    and P': "P' = JObj (AList.update ''sub_pages'' (JArr valid) kvs)"
    by (rule validate_shape)
  have all_ok: "\<not> nullish sp" if "sp \<in> set subs" for sp
    using f that
  proof (induction subs arbitrary: valid)
    case Nil
    then show ?case by simp
  next
    case (Cons a subs)
    then show ?case
      by (auto simp: is_valid_sub_page_def get_prop_def split: sum.splits if_splits)
  qed
  have "valid = filter (\<lambda>sp. is_valid_sub_page (set (map link_url L)) sp = Inr True) subs"
    using f by (rule js_filter_is_filter)
  also have "\<dots> = filter (\<lambda>sp. \<exists>u. read_prop sp ''url'' = JStr u \<and> u \<in> link_url ` set L) subs"
    by (rule filter_cong) (auto simp: is_valid_sub_page_True all_ok)
  finally have v: "valid = filter (\<lambda>sp. \<exists>u. read_prop sp ''url'' = JStr u \<and> u \<in> link_url ` set L) subs" .
  have a: "read_prop P ''sub_pages'' = JArr subs"
    using P sp by simp
  have b: "read_prop P' ''sub_pages'' = JArr valid"
    unfolding P' by (simp add: read_prop_update del: read_prop.simps)
  show ?thesis
    using a b v by auto
qed

lemma demo_validate: "validateScrapingPlan demo_plan demo_links = Inr demo_valid_plan"
  by (simp add: validateScrapingPlan_def demo_plan_def demo_links_def demo_valid_plan_def
      get_prop_def nullish_def is_valid_sub_page_def)

theorem validate_sound_witness:
  "validateScrapingPlan demo_plan demo_links = Inr demo_valid_plan
   \<and> read_prop demo_valid_plan ''sub_pages''
       = JArr [JObj [(''url'', JStr ''https://www.rvo.nl/onderwerpen/a'')]]
   \<and> ''https://www.rvo.nl/onderwerpen/a'' \<in> link_url ` set demo_links"
  using validate_sound [OF demo_validate]
  by (simp add: demo_validate) (simp add: demo_valid_plan_def demo_links_def)

text \<open>
  Claim C8 (validator frame). Whenever the validator returns a plan, every property other
  than \<open>sub_pages\<close> reads as in the given plan; in particular \<open>documents\<close>, \<open>main_page\<close>,
  \<open>max_pages\<close>, \<open>max_documents\<close> and \<open>focus_keywords\<close> are passed through unchanged.
\<close>

theorem validate_frame:
  assumes "validateScrapingPlan P L = Inr P'"
  shows "(\<forall>k. k \<noteq> ''sub_pages'' \<longrightarrow> read_prop P' k = read_prop P k)
         \<and> read_prop P' ''documents'' = read_prop P ''documents''
         \<and> read_prop P' ''main_page'' = read_prop P ''main_page''
         \<and> read_prop P' ''max_pages'' = read_prop P ''max_pages''
         \<and> read_prop P' ''max_documents'' = read_prop P ''max_documents''
         \<and> read_prop P' ''focus_keywords'' = read_prop P ''focus_keywords''"
proof -
  from assms obtain kvs subs valid where
    "P = JObj kvs" "P' = JObj (AList.update ''sub_pages'' (JArr valid) kvs)"
    by (rule validate_shape)
  then show ?thesis
    by (simp add: read_prop_update del: read_prop.simps)
qed

theorem validate_frame_witness:
  "validateScrapingPlan demo_plan demo_links = Inr demo_valid_plan
   \<and> read_prop demo_valid_plan ''documents''
       = JArr [JObj [(''url'', JStr ''https://www.rvo.nl/doc/plan.pdf'')]]
   \<and> read_prop demo_valid_plan ''max_pages'' = JNum 8"
  using validate_frame [OF demo_validate]
  by (simp add: demo_validate) (simp add: demo_plan_def)

section \<open>Properties of the crawl\<close>

lemma sent_only: "r \<in> set (sent e m u) \<Longrightarrow> r = (m, u)"
  by (simp add: sent_def split: if_splits)

lemma count_sent_other [simp]: "v \<noteq> u \<Longrightarrow> count_list (sent e m u) (m', v) = 0"
  by (simp add: sent_def)

lemma fetch_state [simp]:
  "snd (fetch e st m u) = st\<lparr>requests := requests st @ sent e m u\<rparr>"
  by (simp add: fetch_def sent_def)

lemma checkUrlExists_state [simp]:
  "snd (checkUrlExists e st u) = st\<lparr>requests := requests st @ sent e HEAD u\<rparr>"
  by (simp add: checkUrlExists_def fetch_def sent_def split: response.splits)

lemma scrapePage_state [simp]:
  "snd (scrapePage e st u) = st\<lparr>requests := requests st @ sent e GET u\<rparr>"
  by (simp add: scrapePage_def fetch_def sent_def Let_def split: response.splits bool.splits)

lemma scrapePage_url: "scrapePage e st u = (Inr pageData, st') \<Longrightarrow> page_url pageData = u"
  by (auto simp: scrapePage_def fetch_def Let_def split: response.splits bool.splits if_splits)

lemma extractDocumentText_state [simp]:
  "snd (extractDocumentText e st u t) = st\<lparr>requests := requests st @ sent e GET u\<rparr>"
  by (simp add: extractDocumentText_def fetch_def sent_def split: response.splits bool.splits)

lemma extractDocumentText_nonempty:
  "fst (extractDocumentText e st u t) \<noteq> [] \<Longrightarrow> t = ''pdf'' \<or> t = ''docx'' \<or> t = ''xlsx''"
  by (auto simp: extractDocumentText_def fetch_def split: response.splits bool.splits if_splits)

lemma get_prop_JStr: "get_prop v k = Inr (JStr u) \<longleftrightarrow> read_prop v k = JStr u"
  by (cases v) (auto simp: get_prop_def nullish_def)

lemma foldl_invariant:
  assumes "I acc" and "\<And>a x. I a \<Longrightarrow> I (f a x)"
  shows "I (foldl f acc xs)"
  using assms(1) by (induction xs arbitrary: acc) (auto intro: assms(2))

text \<open>What one step of the document loop does.\<close>

lemma process_document_other:
  assumes "\<And>u. read_prop d ''url'' \<noteq> JStr u"
  shows "process_document e (docs, st) d = (docs, st)"
proof (cases "get_prop d ''url''")
  case (Inl a)
  then show ?thesis by (simp add: process_document_def)
next
  case (Inr v)
  with assms have "\<And>u. v \<noteq> JStr u" by (auto simp: get_prop_JStr [symmetric])
  then have "\<not> (\<exists>u. v = JStr u)" by blast
  with Inr show ?thesis by (cases v) (simp_all add: process_document_def)
qed

lemma process_document_visited_url:
  assumes "read_prop d ''url'' = JStr u" and "u \<in> visitedUrls st"
  shows "process_document e (docs, st) d = (docs, st)"
  using assms by (simp add: process_document_def get_prop_JStr [THEN iffD2])

lemma process_document_new_url:
  assumes "read_prop d ''url'' = JStr u" and "u \<notin> visitedUrls st"
  shows "process_document e (docs, st) d =
     (let t = fst (extractDocumentText e st u (getDocumentType u)) in
      if t \<noteq> [] then
        (docs @ [\<lparr>doc_url = u,
                   doc_title = (if last_segment u \<noteq> [] then last_segment u else ''Document''),
                   doc_text = t, doc_priority = read_prop d ''priority'',
                   doc_reason = read_prop d ''reason'', doc_type = getDocumentType u\<rparr>],
         st\<lparr>requests := requests st @ sent e GET u, visitedUrls := insert u (visitedUrls st)\<rparr>)
      else (docs, st\<lparr>requests := requests st @ sent e GET u\<rparr>))"
proof -
  obtain t st1 where x: "extractDocumentText e st u (getDocumentType u) = (t, st1)"
    by (cases "extractDocumentText e st u (getDocumentType u)")
  then have "st1 = st\<lparr>requests := requests st @ sent e GET u\<rparr>"
    using extractDocumentText_state [of e st u "getDocumentType u"] by simp
  with x assms show ?thesis
    by (simp add: process_document_def get_prop_JStr [THEN iffD2] Let_def)
qed

lemma process_document_cases:
  obtains (skipped) "process_document e (docs, st) d = (docs, st)"
  | (no_text) u where "read_prop d ''url'' = JStr u" "u \<notin> visitedUrls st"
      "fst (extractDocumentText e st u (getDocumentType u)) = []"
      "process_document e (docs, st) d = (docs, st\<lparr>requests := requests st @ sent e GET u\<rparr>)"
  | (recorded) u r where "read_prop d ''url'' = JStr u" "u \<notin> visitedUrls st"
      "doc_url r = u" "doc_text r = fst (extractDocumentText e st u (getDocumentType u))"
      "doc_text r \<noteq> []" "doc_type r = getDocumentType u"
      "process_document e (docs, st) d =
         (docs @ [r], st\<lparr>requests := requests st @ sent e GET u,
                          visitedUrls := insert u (visitedUrls st)\<rparr>)"
proof (cases "\<exists>u. read_prop d ''url'' = JStr u")
  case False
  then show ?thesis by (intro skipped process_document_other) simp
next
  case True
  then obtain u where u: "read_prop d ''url'' = JStr u" ..
  show ?thesis
  proof (cases "u \<in> visitedUrls st")
    case True
    with u show ?thesis by (intro skipped process_document_visited_url)
  next
    case False
    note new = process_document_new_url [OF u False, of e docs]
    show ?thesis
    proof (cases "fst (extractDocumentText e st u (getDocumentType u)) = []")
      case True
      with new u False show ?thesis by (intro no_text [of u]) (simp_all add: Let_def)
    next
      case nonempty: False
      with new u False show ?thesis
        by (intro recorded [of u "\<lparr>doc_url = u,
               doc_title = (if last_segment u \<noteq> [] then last_segment u else ''Document''),
               doc_text = fst (extractDocumentText e st u (getDocumentType u)),
               doc_priority = read_prop d ''priority'',
               doc_reason = read_prop d ''reason'', doc_type = getDocumentType u\<rparr>"])
          (simp_all add: Let_def)
    qed
  qed
qed

text \<open>What one step of the sub-page loop does.\<close>

lemma scrape_sub_page_other:
  assumes "\<And>u. read_prop sp ''url'' \<noteq> JStr u"
  shows "scrape_sub_page e (pages, st) sp = (pages, st)"
proof (cases "get_prop sp ''url''")
  case (Inl a)
  then show ?thesis by (simp add: scrape_sub_page_def)
next
  case (Inr v)
  with assms have "\<And>u. v \<noteq> JStr u" by (auto simp: get_prop_JStr [symmetric])
  then have "\<not> (\<exists>u. v = JStr u)" by blast
  with Inr show ?thesis by (cases v) (simp_all add: scrape_sub_page_def)
qed

lemma scrape_sub_page_visited_url:
  assumes "read_prop sp ''url'' = JStr u" and "u \<in> visitedUrls st"
  shows "scrape_sub_page e (pages, st) sp = (pages, st)"
  using assms by (simp add: scrape_sub_page_def get_prop_JStr [THEN iffD2])

lemma scrape_sub_page_new_url:
  assumes "read_prop sp ''url'' = JStr u" and "u \<notin> visitedUrls st"
  shows "scrape_sub_page e (pages, st) sp =
     (if fst (checkUrlExists e st u) then
        (case fst (scrapePage e (snd (checkUrlExists e st u)) u) of
           Inr pageData \<Rightarrow>
             (pages @ [page_data.extend pageData
                         \<lparr>page_priority = read_prop sp ''priority'',
                          page_reason = read_prop sp ''reason''\<rparr>],
              st\<lparr>requests := requests st @ sent e HEAD u @ sent e GET u,
                 visitedUrls := insert u (visitedUrls st)\<rparr>)
         | Inl err \<Rightarrow> (pages, st\<lparr>requests := requests st @ sent e HEAD u @ sent e GET u\<rparr>))
      else (pages, st\<lparr>requests := requests st @ sent e HEAD u\<rparr>))"
proof -
  define ok where "ok = fst (checkUrlExists e st u)"
  define st1 where "st1 = st\<lparr>requests := requests st @ sent e HEAD u\<rparr>"
  define r where "r = fst (scrapePage e st1 u)"
  define st2 where "st2 = st\<lparr>requests := requests st @ sent e HEAD u @ sent e GET u\<rparr>"
  have c: "checkUrlExists e st u = (ok, st1)"
    by (simp add: ok_def st1_def prod_eq_iff)
  have x: "scrapePage e st1 u = (r, st2)"
    by (simp add: r_def st2_def st1_def prod_eq_iff)
  have "scrape_sub_page e (pages, st) sp =
     (if ok then
        (case r of
           Inr pageData \<Rightarrow>
             (pages @ [page_data.extend pageData
                         \<lparr>page_priority = read_prop sp ''priority'',
                          page_reason = read_prop sp ''reason''\<rparr>],
              st2\<lparr>visitedUrls := insert u (visitedUrls st2)\<rparr>)
         | Inl err \<Rightarrow> (pages, st2))
      else (pages, st1))"
    using assms c x
    by (cases ok; cases r) (simp_all add: scrape_sub_page_def get_prop_JStr [THEN iffD2])
  moreover have "snd (checkUrlExists e st u) = st1"
    using c by (simp only: snd_conv)
  moreover have "st2\<lparr>visitedUrls := insert u (visitedUrls st2)\<rparr>
                   = st\<lparr>requests := requests st @ sent e HEAD u @ sent e GET u,
                        visitedUrls := insert u (visitedUrls st)\<rparr>"
    by (simp add: st2_def)
  ultimately show ?thesis
    by (simp only: ok_def r_def st2_def st1_def)
qed

lemma scrape_sub_page_cases:
  obtains (skipped) "scrape_sub_page e (pages, st) sp = (pages, st)"
  | (not_scraped) u log where "read_prop sp ''url'' = JStr u" "u \<notin> visitedUrls st"
      "scrape_sub_page e (pages, st) sp = (pages, st\<lparr>requests := requests st @ log\<rparr>)"
  | (scraped) u p log where "read_prop sp ''url'' = JStr u" "u \<notin> visitedUrls st"
      "page_url p = u" "page_reason p = read_prop sp ''reason''"
      "scrape_sub_page e (pages, st) sp =
         (pages @ [p], st\<lparr>requests := requests st @ log,
                            visitedUrls := insert u (visitedUrls st)\<rparr>)"
proof (cases "\<exists>u. read_prop sp ''url'' = JStr u")
  case False
  then show ?thesis by (intro skipped scrape_sub_page_other) simp
next
  case True
  then obtain u where u: "read_prop sp ''url'' = JStr u" ..
  show ?thesis
  proof (cases "u \<in> visitedUrls st")
    case True
    with u show ?thesis by (intro skipped scrape_sub_page_visited_url)
  next
    case False
    note new = scrape_sub_page_new_url [OF u False, of e pages]
    show ?thesis
    proof (cases "fst (checkUrlExists e st u)")
      case no: False
      with new u False show ?thesis by (intro not_scraped [of u "sent e HEAD u"]) simp_all
    next
      case yes: True
      obtain r st2 where x: "scrapePage e (snd (checkUrlExists e st u)) u = (r, st2)"
        by (cases "scrapePage e (snd (checkUrlExists e st u)) u")
      show ?thesis
      proof (cases r)
        case (Inl err)
        with new u False yes x show ?thesis
          by (intro not_scraped [of u "sent e HEAD u @ sent e GET u"]) simp_all
      next
        case (Inr pageData)
        with x have "page_url pageData = u" by (auto dest: scrapePage_url)
        with new u False yes x Inr show ?thesis
          by (intro scraped [of u "page_data.extend pageData
                 \<lparr>page_priority = read_prop sp ''priority'',
                  page_reason = read_prop sp ''reason''\<rparr>" "sent e HEAD u @ sent e GET u"])
            (simp_all add: page_data.defs)
      qed
    qed
  qed
qed

text \<open>The sub-page loop: the visited set grows by the urls of the pages it records.\<close>

lemma scrape_sub_pages_exact:
  assumes "scrape_sub_pages e subPages (pages0, st1) = (allPages, st2)"
  shows "\<exists>new. allPages = pages0 @ new
           \<and> visitedUrls st2 = visitedUrls st1 \<union> page_url ` set new"
proof -
  define I where "I = (\<lambda>acc :: page_record list \<times> agent_state.
      \<exists>new. fst acc = pages0 @ new
        \<and> visitedUrls (snd acc) = visitedUrls st1 \<union> page_url ` set new)"
  have "I (foldl (scrape_sub_page e) (pages0, st1) subPages)"
  proof (rule foldl_invariant)
    show "I (pages0, st1)" by (simp add: I_def)
  next
    fix a sp assume a: "I a"
    obtain pages st where [simp]: "a = (pages, st)" by (cases a)
    from a obtain new where new: "pages = pages0 @ new"
      "visitedUrls st = visitedUrls st1 \<union> page_url ` set new"
      by (auto simp: I_def)
    show "I (scrape_sub_page e a sp)"
    proof (cases rule: scrape_sub_page_cases [where e = e and pages = pages and st = st and sp = sp])
      case skipped
      with new show ?thesis unfolding I_def by auto
    next
      case (not_scraped u log)
      with new show ?thesis unfolding I_def by auto
    next
      case (scraped u p log)
      with new have "fst (scrape_sub_page e a sp) = pages0 @ (new @ [p])
        \<and> visitedUrls (snd (scrape_sub_page e a sp))
            = visitedUrls st1 \<union> page_url ` set (new @ [p])"
        by auto
      then show ?thesis unfolding I_def by blast
    qed
  qed
  then show ?thesis using assms by (simp add: I_def scrape_sub_pages_def)
qed

lemma scrape_main_page_visited:
  "visitedUrls (snd (scrape_main_page e plan st)) = visitedUrls st"
proof (cases "get_prop plan ''main_page''")
  case (Inl err)
  then show ?thesis by (simp add: scrape_main_page_def)
next
  case (Inr main_page)
  show ?thesis
  proof (cases "get_prop main_page ''url''")
    case (Inl err)
    with Inr show ?thesis by (simp add: scrape_main_page_def)
  next
    case url: (Inr v)
    show ?thesis
    proof (cases v)
      case (JStr u)
      obtain r st' where x: "scrapePage e st u = (r, st')"
        by (cases "scrapePage e st u")
      then have "visitedUrls st' = visitedUrls st"
        using scrapePage_state [of e st u] by simp
      with Inr url JStr x show ?thesis
        by (cases r) (simp_all add: scrape_main_page_def)
    qed (use Inr url in \<open>simp_all add: scrape_main_page_def\<close>)
  qed
qed

text \<open>The document loop: it only sends GET requests, for urls that were not visited.\<close>

lemma process_documents_requests:
  assumes "process_documents e documents (docs0, st2) = (allDocuments, st3)"
  shows "visitedUrls st2 \<subseteq> visitedUrls st3
         \<and> (\<exists>log. requests st3 = requests st2 @ log
               \<and> (\<forall>r \<in> set log. fst r = GET \<and> snd r \<notin> visitedUrls st2))"
proof -
  define I where "I = (\<lambda>acc :: doc_record list \<times> agent_state.
      visitedUrls st2 \<subseteq> visitedUrls (snd acc)
      \<and> (\<exists>log. requests (snd acc) = requests st2 @ log
            \<and> (\<forall>r \<in> set log. fst r = GET \<and> snd r \<notin> visitedUrls st2)))"
  have "I (foldl (process_document e) (docs0, st2) documents)"
  proof (rule foldl_invariant)
    show "I (docs0, st2)" by (simp add: I_def)
  next
    fix a d assume a: "I a"
    obtain docs st where [simp]: "a = (docs, st)" by (cases a)
    from a obtain log where log: "visitedUrls st2 \<subseteq> visitedUrls st"
      "requests st = requests st2 @ log"
      "\<forall>r \<in> set log. fst r = GET \<and> snd r \<notin> visitedUrls st2"
      by (auto simp: I_def)
    have more: "\<forall>r \<in> set (log @ sent e GET u). fst r = GET \<and> snd r \<notin> visitedUrls st2"
      if "u \<notin> visitedUrls st" for u
      using that log by (auto dest: sent_only)
    show "I (process_document e a d)"
    proof (cases rule: process_document_cases [where e = e and docs = docs and st = st and d = d])
      case skipped
      with a show ?thesis by simp
    next
      case (no_text u)
      with log more [of u] have "visitedUrls st2 \<subseteq> visitedUrls (snd (process_document e a d))
        \<and> requests (snd (process_document e a d)) = requests st2 @ (log @ sent e GET u)
        \<and> (\<forall>r \<in> set (log @ sent e GET u). fst r = GET \<and> snd r \<notin> visitedUrls st2)"
        by simp
      then show ?thesis unfolding I_def by blast
    next
      case (recorded u r)
      with log more [of u] have "visitedUrls st2 \<subseteq> visitedUrls (snd (process_document e a d))
        \<and> requests (snd (process_document e a d)) = requests st2 @ (log @ sent e GET u)
        \<and> (\<forall>r \<in> set (log @ sent e GET u). fst r = GET \<and> snd r \<notin> visitedUrls st2)"
        by auto
      then show ?thesis unfolding I_def by blast
    qed
  qed
  then show ?thesis using assms by (simp add: I_def process_documents_def)
qed

lemma process_document_records:
  assumes "process_document e (docs, st) d = (docs', st')"
  shows "\<forall>r \<in> set docs'. r \<in> set docs \<or>
           (doc_text r \<noteq> [] \<and> doc_type r = getDocumentType (doc_url r)
            \<and> doc_type r \<in> {''pdf'', ''docx'', ''xlsx''})"
proof (cases rule: process_document_cases [where e = e and docs = docs and st = st and d = d])
  case (recorded u r)
  then have "doc_type r \<in> {''pdf'', ''docx'', ''xlsx''}"
    using extractDocumentText_nonempty [of e st u "getDocumentType u"] by auto
  with recorded assms show ?thesis by auto
qed (use assms in auto)

lemma process_documents_records:
  assumes "process_documents e documents (docs0, st2) = (allDocuments, st3)"
  shows "\<forall>r \<in> set allDocuments. r \<in> set docs0 \<or>
           (doc_text r \<noteq> [] \<and> doc_type r = getDocumentType (doc_url r)
            \<and> doc_type r \<in> {''pdf'', ''docx'', ''xlsx''})"
proof -
  define I where "I = (\<lambda>acc :: doc_record list \<times> agent_state.
      \<forall>r \<in> set (fst acc). r \<in> set docs0 \<or>
           (doc_text r \<noteq> [] \<and> doc_type r = getDocumentType (doc_url r)
            \<and> doc_type r \<in> {''pdf'', ''docx'', ''xlsx''}))"
  have "I (foldl (process_document e) (docs0, st2) documents)"
  proof (rule foldl_invariant)
    show "I (docs0, st2)" by (simp add: I_def)
  next
    fix a d assume a: "I a"
    obtain docs st where [simp]: "a = (docs, st)" by (cases a)
    obtain docs' st' where step: "process_document e (docs, st) d = (docs', st')"
      by (cases "process_document e (docs, st) d")
    from process_document_records [OF step] a show "I (process_document e a d)"
      unfolding I_def by (simp add: step) blast
  qed
  then show ?thesis using assms by (simp add: I_def process_documents_def)
qed

text \<open>The executor is the three phases in a row.\<close>

lemma aiExecuteScrapingPlan_Inr:
  assumes "aiExecuteScrapingPlan e plan st = (Inr sd, st')"
  obtains mainPages st1 subPages st2 documents where
    "scrape_main_page e plan st = (mainPages, st1)"
    "slice_targets e (read_prop plan ''sub_pages'') (or_else (read_prop plan ''max_pages'') (JNum 8))
       = Inr subPages"
    "scrape_sub_pages e subPages (mainPages, st1) = (sd_allPages sd, st2)"
    "slice_targets e (read_prop plan ''documents'')
       (or_else (read_prop plan ''max_documents'') (JNum 5)) = Inr documents"
    "process_documents e documents ([], st2) = (sd_allDocuments sd, st')"
  using assms unfolding aiExecuteScrapingPlan_def get_prop_def
  by (auto split: prod.splits sum.splits if_splits)

lemma fresh_fields [simp]: "visitedUrls fresh = {}" "requests fresh = []"
  by (simp_all add: fresh_def)

lemma read_prop_url_entry [simp]: "read_prop (url_entry u) ''url'' = JStr u"
  by (simp add: url_entry_def)

section \<open>The claims about the crawl\<close>

text \<open>
  Claim C6 says that a document whose download succeeds and whose extractor returns the
  empty text is still recorded. It is not: the record is pushed under
  \<open>if (documentText)\<close>. Here the download of the document succeeds, its extractor
  returns the empty text, and the executor's output has no document record.
\<close>

theorem empty_text_recorded_counterexample:
  "site demo_env 0 GET ''https://www.rvo.nl/doc/empty.pdf'' = Response True ''PDF0''
   \<and> extractPdfText demo_env ''PDF0'' = []
   \<and> fst (aiExecuteScrapingPlan demo_env (plan_of [] [''https://www.rvo.nl/doc/empty.pdf'']) fresh)
       = Inr \<lparr>sd_mainPage = None, sd_allPages = [], sd_allDocuments = []\<rparr>"
  by code_simp

text \<open>
  Claim C6 as amended. A document whose extracted text is empty is not recorded and its
  url is not marked as visited: the step of the document loop leaves the records and the
  visited set as they were. Every document record in the executor's output has a text
  that is not empty.
\<close>

theorem empty_text_not_recorded:
  "(read_prop d ''url'' = JStr u \<and> u \<notin> visitedUrls st
      \<and> fst (extractDocumentText e st u (getDocumentType u)) = []
    \<longrightarrow> fst (process_document e (docs, st) d) = docs
        \<and> visitedUrls (snd (process_document e (docs, st) d)) = visitedUrls st)
   \<and> (aiExecuteScrapingPlan e plan st = (Inr sd, st')
      \<longrightarrow> (\<forall>r \<in> set (sd_allDocuments sd). doc_text r \<noteq> []))"
proof (intro conjI impI)
  assume a: "read_prop d ''url'' = JStr u \<and> u \<notin> visitedUrls st
      \<and> fst (extractDocumentText e st u (getDocumentType u)) = []"
  then show "fst (process_document e (docs, st) d) = docs"
    by (cases rule: process_document_cases [where e = e and docs = docs and st = st and d = d]) auto
  from a show "visitedUrls (snd (process_document e (docs, st) d)) = visitedUrls st"
    by (cases rule: process_document_cases [where e = e and docs = docs and st = st and d = d]) auto
next
  assume "aiExecuteScrapingPlan e plan st = (Inr sd, st')"
  then obtain documents st2 where
    "process_documents e documents ([], st2) = (sd_allDocuments sd, st')"
    by (rule aiExecuteScrapingPlan_Inr)
  from process_documents_records [OF this]
  show "\<forall>r \<in> set (sd_allDocuments sd). doc_text r \<noteq> []" by auto
qed

theorem empty_text_not_recorded_witness:
  "fst (process_document demo_env ([], fresh) (url_entry ''https://www.rvo.nl/doc/empty.pdf'')) = []
   \<and> visitedUrls (snd (process_document demo_env ([], fresh)
                          (url_entry ''https://www.rvo.nl/doc/empty.pdf''))) = {}
   \<and> aiExecuteScrapingPlan demo_env (plan_of [] [''https://www.rvo.nl/doc/plan.pdf'']) fresh
       = (Inr \<lparr>sd_mainPage = None, sd_allPages = [],
               sd_allDocuments = [\<lparr>doc_url = ''https://www.rvo.nl/doc/plan.pdf'',
                   doc_title = ''plan.pdf'', doc_text = ''Plan text'', doc_priority = JUndefined,
                   doc_reason = JUndefined, doc_type = ''pdf''\<rparr>]\<rparr>,
          \<lparr>visitedUrls = {''https://www.rvo.nl/doc/plan.pdf''},
           requests = [(GET, ''https://www.rvo.nl/doc/plan.pdf'')]\<rparr>)"
proof -
  have h1: "read_prop (url_entry ''https://www.rvo.nl/doc/empty.pdf'') ''url''
              = JStr ''https://www.rvo.nl/doc/empty.pdf''
            \<and> ''https://www.rvo.nl/doc/empty.pdf'' \<notin> visitedUrls fresh
            \<and> fst (extractDocumentText demo_env fresh ''https://www.rvo.nl/doc/empty.pdf''
                      (getDocumentType ''https://www.rvo.nl/doc/empty.pdf'')) = []"
    by code_simp
  have h2: "aiExecuteScrapingPlan demo_env (plan_of [] [''https://www.rvo.nl/doc/plan.pdf'']) fresh
       = (Inr \<lparr>sd_mainPage = None, sd_allPages = [],
               sd_allDocuments = [\<lparr>doc_url = ''https://www.rvo.nl/doc/plan.pdf'',
                   doc_title = ''plan.pdf'', doc_text = ''Plan text'', doc_priority = JUndefined,
                   doc_reason = JUndefined, doc_type = ''pdf''\<rparr>]\<rparr>,
          \<lparr>visitedUrls = {''https://www.rvo.nl/doc/plan.pdf''},
           requests = [(GET, ''https://www.rvo.nl/doc/plan.pdf'')]\<rparr>)"
    by code_simp
  show ?thesis
    using empty_text_not_recorded [where e = demo_env and st = fresh and docs = "[]"
        and d = "url_entry ''https://www.rvo.nl/doc/empty.pdf''"
        and u = "''https://www.rvo.nl/doc/empty.pdf''"
        and plan = "plan_of [] [''https://www.rvo.nl/doc/plan.pdf'']"] h1 h2
    by simp
qed


text \<open>
  Claim C9 says that a url listed both as a sub-page and as a document is fetched at most
  once. A url enters the visited set only when its retrieval has succeeded. Here the url
  answers the existence probe, its download as a sub-page fails, and the document loop
  downloads it again: two GET requests for the same url in one execution.
\<close>

theorem fetched_at_most_once_counterexample:
  "count_list
     (requests (snd (aiExecuteScrapingPlan demo_env
                       (plan_of [''https://www.rvo.nl/doc/flaky.pdf'']
                                [''https://www.rvo.nl/doc/flaky.pdf'']) fresh)))
     (GET, ''https://www.rvo.nl/doc/flaky.pdf'') = 2"
  by code_simp

text \<open>
  Claim C9 as amended. For every plan, the two loops of the executor use the visited set
  as follows.
  \<^item> A step of the sub-page loop does nothing for a url in the visited set; for a url
    outside it, the step marks the url exactly when the existence probe succeeded and the
    download returned a page.
  \<^item> Over the sub-page loop the visited set grows by exactly the urls of the pages the
    loop records.
  \<^item> A step of the document loop does nothing for a url in the visited set; for a url
    outside it, the step sends one GET request for it (none when the HTTP library does not
    support the url) and marks the url exactly when the extracted text is not empty.
  \<^item> Over the document loop the visited set only grows, every request sent is a GET
    request for a url outside the visited set as it was when the loop started, and so the
    number of requests for a url in that set does not change.
  \<^item> An execution that returns is the main-page phase, which leaves the visited set as
    it was, then the sub-page loop, then the document loop.
\<close>

theorem visited_url_not_fetched_again:
  "(read_prop sp ''url'' = JStr u \<longrightarrow>
      (u \<in> visitedUrls st \<longrightarrow> scrape_sub_page e (pages, st) sp = (pages, st))
    \<and> (u \<notin> visitedUrls st \<longrightarrow>
         (u \<in> visitedUrls (snd (scrape_sub_page e (pages, st) sp))
          \<longleftrightarrow> fst (checkUrlExists e st u)
              \<and> (\<exists>pageData. fst (scrapePage e (snd (checkUrlExists e st u)) u) = Inr pageData))))
   \<and> (scrape_sub_pages e subPages (pages0, st1) = (allPages, st2) \<longrightarrow>
        (\<exists>new. allPages = pages0 @ new
           \<and> visitedUrls st2 = visitedUrls st1 \<union> page_url ` set new))
   \<and> (read_prop d ''url'' = JStr u \<longrightarrow>
        (u \<in> visitedUrls st \<longrightarrow> process_document e (docs, st) d = (docs, st))
      \<and> (u \<notin> visitedUrls st \<longrightarrow>
           requests (snd (process_document e (docs, st) d)) = requests st @ sent e GET u
         \<and> (u \<in> visitedUrls (snd (process_document e (docs, st) d))
            \<longleftrightarrow> fst (extractDocumentText e st u (getDocumentType u)) \<noteq> [])))
   \<and> (process_documents e documents (docs0, st2) = (allDocuments, st3) \<longrightarrow>
        visitedUrls st2 \<subseteq> visitedUrls st3
      \<and> (\<exists>log. requests st3 = requests st2 @ log
            \<and> (\<forall>r \<in> set log. fst r = GET \<and> snd r \<notin> visitedUrls st2))
      \<and> (\<forall>v \<in> visitedUrls st2. \<forall>m.
            count_list (requests st3) (m, v) = count_list (requests st2) (m, v)))
   \<and> (aiExecuteScrapingPlan e plan st = (Inr sd, st') \<longrightarrow>
        (\<exists>mainPages sta subPages stb documents.
            scrape_main_page e plan st = (mainPages, sta) \<and> visitedUrls sta = visitedUrls st
          \<and> scrape_sub_pages e subPages (mainPages, sta) = (sd_allPages sd, stb)
          \<and> process_documents e documents ([], stb) = (sd_allDocuments sd, st')))"
proof (intro conjI impI)
  assume u: "read_prop sp ''url'' = JStr u" and v: "u \<in> visitedUrls st"
  then show "scrape_sub_page e (pages, st) sp = (pages, st)"
    by (rule scrape_sub_page_visited_url)
next
  assume u: "read_prop sp ''url'' = JStr u" and v: "u \<notin> visitedUrls st"
  show "u \<in> visitedUrls (snd (scrape_sub_page e (pages, st) sp))
          \<longleftrightarrow> fst (checkUrlExists e st u)
              \<and> (\<exists>pageData. fst (scrapePage e (snd (checkUrlExists e st u)) u) = Inr pageData)"
    using v unfolding scrape_sub_page_new_url [OF u v]
    by (cases "fst (scrapePage e (snd (checkUrlExists e st u)) u)") simp_all
next
  assume "scrape_sub_pages e subPages (pages0, st1) = (allPages, st2)"
  then show "\<exists>new. allPages = pages0 @ new
           \<and> visitedUrls st2 = visitedUrls st1 \<union> page_url ` set new"
    by (rule scrape_sub_pages_exact)
next
  assume u: "read_prop d ''url'' = JStr u" and v: "u \<in> visitedUrls st"
  then show "process_document e (docs, st) d = (docs, st)"
    by (rule process_document_visited_url)
next
  assume u: "read_prop d ''url'' = JStr u" and v: "u \<notin> visitedUrls st"
  show "requests (snd (process_document e (docs, st) d)) = requests st @ sent e GET u"
    unfolding process_document_new_url [OF u v] by (simp add: Let_def)
  show "u \<in> visitedUrls (snd (process_document e (docs, st) d))
          \<longleftrightarrow> fst (extractDocumentText e st u (getDocumentType u)) \<noteq> []"
    using v unfolding process_document_new_url [OF u v] by (simp add: Let_def)
next
  assume run: "process_documents e documents (docs0, st2) = (allDocuments, st3)"
  from process_documents_requests [OF run]
  obtain log where log: "visitedUrls st2 \<subseteq> visitedUrls st3" "requests st3 = requests st2 @ log"
    "\<forall>r \<in> set log. fst r = GET \<and> snd r \<notin> visitedUrls st2"
    by blast
  show "visitedUrls st2 \<subseteq> visitedUrls st3" by (rule log(1))
  show "\<exists>log. requests st3 = requests st2 @ log
            \<and> (\<forall>r \<in> set log. fst r = GET \<and> snd r \<notin> visitedUrls st2)"
    using log by blast
  show "\<forall>v \<in> visitedUrls st2. \<forall>m.
            count_list (requests st3) (m, v) = count_list (requests st2) (m, v)"
  proof (intro ballI allI)
    fix v m assume "v \<in> visitedUrls st2"
    with log(3) have "(m, v) \<notin> set log" by force
    then have "count_list log (m, v) = 0" by simp
    with log(2) show "count_list (requests st3) (m, v) = count_list (requests st2) (m, v)"
      by simp
  qed
next
  assume "aiExecuteScrapingPlan e plan st = (Inr sd, st')"
  then obtain mainPages sta subPages stb documents where
    m: "scrape_main_page e plan st = (mainPages, sta)"
    and s: "scrape_sub_pages e subPages (mainPages, sta) = (sd_allPages sd, stb)"
    and d: "process_documents e documents ([], stb) = (sd_allDocuments sd, st')"
    by (rule aiExecuteScrapingPlan_Inr)
  from m have "visitedUrls sta = visitedUrls st"
    using scrape_main_page_visited [of e plan st] by simp
  with m s d show "\<exists>mainPages sta subPages stb documents.
            scrape_main_page e plan st = (mainPages, sta) \<and> visitedUrls sta = visitedUrls st
          \<and> scrape_sub_pages e subPages (mainPages, sta) = (sd_allPages sd, stb)
          \<and> process_documents e documents ([], stb) = (sd_allDocuments sd, st')"
    by blast
qed

theorem visited_url_not_fetched_again_witness:
  "read_prop (url_entry ''https://www.rvo.nl/onderwerpen/a'') ''url''
     = JStr ''https://www.rvo.nl/onderwerpen/a''
   \<and> fst (checkUrlExists demo_env fresh ''https://www.rvo.nl/onderwerpen/a'')
   \<and> ''https://www.rvo.nl/onderwerpen/a''
       \<in> visitedUrls (snd (scrape_sub_page demo_env ([], fresh)
                               (url_entry ''https://www.rvo.nl/onderwerpen/a'')))
   \<and> scrape_sub_pages demo_env [url_entry ''https://www.rvo.nl/onderwerpen/a''] ([], fresh)
     = ([\<lparr>page_url = ''https://www.rvo.nl/onderwerpen/a'', page_title = ''<a>'',
          page_html = ''<a>'', page_text = ''<a>'', page_priority = JUndefined,
          page_reason = JUndefined\<rparr>],
        \<lparr>visitedUrls = {''https://www.rvo.nl/onderwerpen/a''},
         requests = [(HEAD, ''https://www.rvo.nl/onderwerpen/a''),
                     (GET, ''https://www.rvo.nl/onderwerpen/a'')]\<rparr>)
   \<and> process_document demo_env
         ([], \<lparr>visitedUrls = {''https://www.rvo.nl/onderwerpen/a''},
               requests = [(HEAD, ''https://www.rvo.nl/onderwerpen/a''),
                           (GET, ''https://www.rvo.nl/onderwerpen/a'')]\<rparr>)
         (url_entry ''https://www.rvo.nl/onderwerpen/a'')
     = ([], \<lparr>visitedUrls = {''https://www.rvo.nl/onderwerpen/a''},
             requests = [(HEAD, ''https://www.rvo.nl/onderwerpen/a''),
                         (GET, ''https://www.rvo.nl/onderwerpen/a'')]\<rparr>)
   \<and> requests (snd (process_document demo_env ([], fresh)
                       (url_entry ''https://www.rvo.nl/doc/flaky.pdf'')))
     = [(GET, ''https://www.rvo.nl/doc/flaky.pdf'')]
   \<and> aiExecuteScrapingPlan demo_env
         (plan_of [''https://www.rvo.nl/onderwerpen/a''] [''https://www.rvo.nl/onderwerpen/a''])
         fresh
     = (Inr \<lparr>sd_mainPage =
               Some \<lparr>page_url = ''https://www.rvo.nl/onderwerpen/a'', page_title = ''<a>'',
                     page_html = ''<a>'', page_text = ''<a>'', page_priority = JUndefined,
                     page_reason = JUndefined\<rparr>,
             sd_allPages =
               [\<lparr>page_url = ''https://www.rvo.nl/onderwerpen/a'', page_title = ''<a>'',
                 page_html = ''<a>'', page_text = ''<a>'', page_priority = JUndefined,
                 page_reason = JUndefined\<rparr>],
             sd_allDocuments = []\<rparr>,
        \<lparr>visitedUrls = {''https://www.rvo.nl/onderwerpen/a''},
         requests = [(HEAD, ''https://www.rvo.nl/onderwerpen/a''),
                     (GET, ''https://www.rvo.nl/onderwerpen/a'')]\<rparr>)"
proof -
  have u: "read_prop (url_entry ''https://www.rvo.nl/onderwerpen/a'') ''url''
             = JStr ''https://www.rvo.nl/onderwerpen/a''"
    by simp
  have f: "read_prop (url_entry ''https://www.rvo.nl/doc/flaky.pdf'') ''url''
             = JStr ''https://www.rvo.nl/doc/flaky.pdf''"
    by simp
  have probe: "fst (checkUrlExists demo_env fresh ''https://www.rvo.nl/onderwerpen/a'')"
    by code_simp
  have page: "fst (scrapePage demo_env
                     (snd (checkUrlExists demo_env fresh ''https://www.rvo.nl/onderwerpen/a''))
                     ''https://www.rvo.nl/onderwerpen/a'')
                = Inr \<lparr>page_url = ''https://www.rvo.nl/onderwerpen/a'', page_title = ''<a>'',
                       page_html = ''<a>'', page_text = ''<a>''\<rparr>"
    by code_simp
  have loop: "scrape_sub_pages demo_env [url_entry ''https://www.rvo.nl/onderwerpen/a'']
                ([], fresh)
     = ([\<lparr>page_url = ''https://www.rvo.nl/onderwerpen/a'', page_title = ''<a>'',
          page_html = ''<a>'', page_text = ''<a>'', page_priority = JUndefined,
          page_reason = JUndefined\<rparr>],
        \<lparr>visitedUrls = {''https://www.rvo.nl/onderwerpen/a''},
         requests = [(HEAD, ''https://www.rvo.nl/onderwerpen/a''),
                     (GET, ''https://www.rvo.nl/onderwerpen/a'')]\<rparr>)"
    by code_simp
  have log: "sent demo_env GET ''https://www.rvo.nl/doc/flaky.pdf''
               = [(GET, ''https://www.rvo.nl/doc/flaky.pdf'')]"
    by code_simp
  have run: "aiExecuteScrapingPlan demo_env
         (plan_of [''https://www.rvo.nl/onderwerpen/a''] [''https://www.rvo.nl/onderwerpen/a''])
         fresh
     = (Inr \<lparr>sd_mainPage =
               Some \<lparr>page_url = ''https://www.rvo.nl/onderwerpen/a'', page_title = ''<a>'',
                     page_html = ''<a>'', page_text = ''<a>'', page_priority = JUndefined,
                     page_reason = JUndefined\<rparr>,
             sd_allPages =
               [\<lparr>page_url = ''https://www.rvo.nl/onderwerpen/a'', page_title = ''<a>'',
                 page_html = ''<a>'', page_text = ''<a>'', page_priority = JUndefined,
                 page_reason = JUndefined\<rparr>],
             sd_allDocuments = []\<rparr>,
        \<lparr>visitedUrls = {''https://www.rvo.nl/onderwerpen/a''},
         requests = [(HEAD, ''https://www.rvo.nl/onderwerpen/a''),
                     (GET, ''https://www.rvo.nl/onderwerpen/a'')]\<rparr>)"
    by code_simp
  note step = visited_url_not_fetched_again
    [where e = demo_env and u = "''https://www.rvo.nl/onderwerpen/a''" and st = fresh
       and sp = "url_entry ''https://www.rvo.nl/onderwerpen/a''" and pages = "[]"]
  note skip = visited_url_not_fetched_again
    [where e = demo_env and u = "''https://www.rvo.nl/onderwerpen/a''"
       and st = "\<lparr>visitedUrls = {''https://www.rvo.nl/onderwerpen/a''},
                  requests = [(HEAD, ''https://www.rvo.nl/onderwerpen/a''),
                              (GET, ''https://www.rvo.nl/onderwerpen/a'')]\<rparr>"
       and d = "url_entry ''https://www.rvo.nl/onderwerpen/a''" and docs = "[]"]
  note again = visited_url_not_fetched_again
    [where e = demo_env and u = "''https://www.rvo.nl/doc/flaky.pdf''" and st = fresh
       and d = "url_entry ''https://www.rvo.nl/doc/flaky.pdf''" and docs = "[]"]
  have a: "''https://www.rvo.nl/onderwerpen/a''
       \<in> visitedUrls (snd (scrape_sub_page demo_env ([], fresh)
                               (url_entry ''https://www.rvo.nl/onderwerpen/a'')))"
    using step u probe page by simp
  have b: "process_document demo_env
         ([], \<lparr>visitedUrls = {''https://www.rvo.nl/onderwerpen/a''},
               requests = [(HEAD, ''https://www.rvo.nl/onderwerpen/a''),
                           (GET, ''https://www.rvo.nl/onderwerpen/a'')]\<rparr>)
         (url_entry ''https://www.rvo.nl/onderwerpen/a'')
     = ([], \<lparr>visitedUrls = {''https://www.rvo.nl/onderwerpen/a''},
             requests = [(HEAD, ''https://www.rvo.nl/onderwerpen/a''),
                         (GET, ''https://www.rvo.nl/onderwerpen/a'')]\<rparr>)"
    using skip u by simp
  have c: "requests (snd (process_document demo_env ([], fresh)
                       (url_entry ''https://www.rvo.nl/doc/flaky.pdf'')))
     = [(GET, ''https://www.rvo.nl/doc/flaky.pdf'')]"
    using again f log by simp
  from u probe a loop b c run show ?thesis by blast
qed

text \<open>
  Claim C10 says that the executor never marks the url of a slide deck as visited. The
  document loop never does, but the sub-page loop does when the deck is also listed as a
  sub-page, which the validator allows, since a link to a document is a harvested page
  link as well: here the deck is retrieved as a page and its url is in the visited set.
\<close>

theorem pptx_marked_counterexample:
  "getDocumentType ''https://www.rvo.nl/doc/slides.pptx'' = ''pptx''
   \<and> visitedUrls (snd (aiExecuteScrapingPlan demo_env
         (plan_of [''https://www.rvo.nl/doc/slides.pptx''] [''https://www.rvo.nl/doc/slides.pptx''])
         fresh))
       = {''https://www.rvo.nl/doc/slides.pptx''}"
  by code_simp

text \<open>
  Claim C10 as amended. When the url of a document classifies as \<open>pptx\<close>, the text
  extraction gives the empty text whatever the download returns. The step of the document
  loop for it records nothing and leaves the visited set as it was. Over the whole
  document loop no record with that url is added, and the url is in the visited set
  afterwards exactly if it was before. The executor's output has no document record of a
  url that classifies as \<open>pptx\<close>, and after an execution such a url is in the visited set
  only if it was there before or it is the url of a page of the output.
\<close>

theorem pptx_never_recorded:
  assumes "getDocumentType url = ''pptx''"
  shows "fst (extractDocumentText e st url (getDocumentType url)) = []
         \<and> (read_prop d ''url'' = JStr url
            \<longrightarrow> fst (process_document e (docs, st) d) = docs
                \<and> visitedUrls (snd (process_document e (docs, st) d)) = visitedUrls st)
         \<and> (process_documents e documents (docs, st) = (docs', st')
            \<longrightarrow> (url \<in> visitedUrls st' \<longleftrightarrow> url \<in> visitedUrls st)
                \<and> (\<forall>r \<in> set docs'. doc_url r = url \<longrightarrow> r \<in> set docs))
         \<and> (aiExecuteScrapingPlan e plan st = (Inr sd, st'')
            \<longrightarrow> (\<forall>r \<in> set (sd_allDocuments sd). getDocumentType (doc_url r) \<noteq> ''pptx'')
                \<and> (url \<in> visitedUrls st''
                    \<longrightarrow> url \<in> visitedUrls st \<or> url \<in> page_url ` set (sd_allPages sd)))"
proof -
  have empty: "fst (extractDocumentText e s url (getDocumentType url)) = []" for s
    using assms by (simp add: extractDocumentText_def fetch_def split: response.splits bool.splits)
  have step: "fst (process_document e (ds, s) x) = ds
              \<and> visitedUrls (snd (process_document e (ds, s) x)) = visitedUrls s"
    if "read_prop x ''url'' = JStr url" for ds s x
    using that empty [of s]
    by (cases rule: process_document_cases [where e = e and docs = ds and st = s and d = x]) auto
  have keep: "(url \<in> visitedUrls (snd (process_document e (ds, s) x)) \<longleftrightarrow> url \<in> visitedUrls s)
              \<and> (\<forall>r \<in> set (fst (process_document e (ds, s) x)). doc_url r = url \<longrightarrow> r \<in> set ds)"
    for ds s x
    using empty [of s]
    by (cases rule: process_document_cases [where e = e and docs = ds and st = s and d = x]) auto
  have loop: "(url \<in> visitedUrls s' \<longleftrightarrow> url \<in> visitedUrls s)
              \<and> (\<forall>r \<in> set ds'. doc_url r = url \<longrightarrow> r \<in> set ds)"
    if run: "process_documents e xs (ds, s) = (ds', s')" for xs ds s ds' s'
  proof -
    define I where "I = (\<lambda>acc :: doc_record list \<times> agent_state.
        (url \<in> visitedUrls (snd acc) \<longleftrightarrow> url \<in> visitedUrls s)
        \<and> (\<forall>r \<in> set (fst acc). doc_url r = url \<longrightarrow> r \<in> set ds))"
    have "I (foldl (process_document e) (ds, s) xs)"
    proof (rule foldl_invariant)
      show "I (ds, s)" by (simp add: I_def)
    next
      fix a x assume a: "I a"
      obtain ds1 s1 where [simp]: "a = (ds1, s1)" by (cases a)
      from keep [of ds1 s1 x] a show "I (process_document e a x)"
        unfolding I_def by auto
    qed
    then show ?thesis using run by (simp add: I_def process_documents_def)
  qed
  have exec: "(\<forall>r \<in> set (sd_allDocuments sd). getDocumentType (doc_url r) \<noteq> ''pptx'')
              \<and> (url \<in> visitedUrls st''
                  \<longrightarrow> url \<in> visitedUrls st \<or> url \<in> page_url ` set (sd_allPages sd))"
    if "aiExecuteScrapingPlan e plan st = (Inr sd, st'')"
  proof -
    from that obtain mainPages s1 subPages s2 ds where
      m: "scrape_main_page e plan st = (mainPages, s1)"
      and s: "scrape_sub_pages e subPages (mainPages, s1) = (sd_allPages sd, s2)"
      and d: "process_documents e ds ([], s2) = (sd_allDocuments sd, st'')"
      by (rule aiExecuteScrapingPlan_Inr)
    from m have v1: "visitedUrls s1 = visitedUrls st"
      using scrape_main_page_visited [of e plan st] by simp
    from scrape_sub_pages_exact [OF s] obtain new where
      new: "sd_allPages sd = mainPages @ new"
      "visitedUrls s2 = visitedUrls s1 \<union> page_url ` set new"
      by blast
    from loop [OF d] have "url \<in> visitedUrls st'' \<longleftrightarrow> url \<in> visitedUrls s2"
      by simp
    with new v1 have "url \<in> visitedUrls st''
        \<longrightarrow> url \<in> visitedUrls st \<or> url \<in> page_url ` set (sd_allPages sd)"
      by auto
    moreover from process_documents_records [OF d]
    have "\<forall>r \<in> set (sd_allDocuments sd). getDocumentType (doc_url r) \<noteq> ''pptx''"
      by auto
    ultimately show ?thesis by blast
  qed
  show ?thesis
    using empty [of st] step [of d docs st] loop [of documents docs st docs' st'] exec by blast
qed

theorem pptx_never_recorded_witness:
  "getDocumentType ''https://www.rvo.nl/doc/slides.pptx'' = ''pptx''
   \<and> site demo_env 0 GET ''https://www.rvo.nl/doc/slides.pptx'' = Response True ''PPT''
   \<and> fst (extractDocumentText demo_env fresh ''https://www.rvo.nl/doc/slides.pptx''
            (getDocumentType ''https://www.rvo.nl/doc/slides.pptx'')) = []
   \<and> fst (process_document demo_env ([], fresh)
            (url_entry ''https://www.rvo.nl/doc/slides.pptx'')) = []
   \<and> visitedUrls (snd (process_document demo_env ([], fresh)
            (url_entry ''https://www.rvo.nl/doc/slides.pptx''))) = {}
   \<and> aiExecuteScrapingPlan demo_env
         (plan_of [] [''https://www.rvo.nl/doc/plan.pdf'', ''https://www.rvo.nl/doc/slides.pptx''])
         fresh
       = (Inr \<lparr>sd_mainPage = None, sd_allPages = [],
               sd_allDocuments = [\<lparr>doc_url = ''https://www.rvo.nl/doc/plan.pdf'',
                   doc_title = ''plan.pdf'', doc_text = ''Plan text'', doc_priority = JUndefined,
                   doc_reason = JUndefined, doc_type = ''pdf''\<rparr>]\<rparr>,
          \<lparr>visitedUrls = {''https://www.rvo.nl/doc/plan.pdf''},
           requests = [(GET, ''https://www.rvo.nl/doc/plan.pdf''),
                       (GET, ''https://www.rvo.nl/doc/slides.pptx'')]\<rparr>)"
proof -
  have h: "getDocumentType ''https://www.rvo.nl/doc/slides.pptx'' = ''pptx''"
    by code_simp
  have s: "site demo_env 0 GET ''https://www.rvo.nl/doc/slides.pptx'' = Response True ''PPT''"
    by code_simp
  have r: "read_prop (url_entry ''https://www.rvo.nl/doc/slides.pptx'') ''url''
             = JStr ''https://www.rvo.nl/doc/slides.pptx''"
    by (simp add: url_entry_def)
  have x: "aiExecuteScrapingPlan demo_env
         (plan_of [] [''https://www.rvo.nl/doc/plan.pdf'', ''https://www.rvo.nl/doc/slides.pptx''])
         fresh
       = (Inr \<lparr>sd_mainPage = None, sd_allPages = [],
               sd_allDocuments = [\<lparr>doc_url = ''https://www.rvo.nl/doc/plan.pdf'',
                   doc_title = ''plan.pdf'', doc_text = ''Plan text'', doc_priority = JUndefined,
                   doc_reason = JUndefined, doc_type = ''pdf''\<rparr>]\<rparr>,
          \<lparr>visitedUrls = {''https://www.rvo.nl/doc/plan.pdf''},
           requests = [(GET, ''https://www.rvo.nl/doc/plan.pdf''),
                       (GET, ''https://www.rvo.nl/doc/slides.pptx'')]\<rparr>)"
    by code_simp
  show ?thesis
    using pptx_never_recorded [OF h, where e = demo_env and st = fresh and docs = "[]"
        and d = "url_entry ''https://www.rvo.nl/doc/slides.pptx''"] h s r x
    by simp
qed

section \<open>The fallback plan\<close>

lemma fallback_plan_raises:
  "fst (aiExecuteScrapingPlan e (createFallbackScrapingPlan mainUrl d) st) = Inl TypeError"
  by (simp add: aiExecuteScrapingPlan_def createFallbackScrapingPlan_def get_prop_def nullish_def
      slice_targets_def slice0_def scrape_sub_pages_def or_else_def split: prod.splits)

text \<open>
  Claim C2 says that the plan substituted for an unparseable oracle response has an empty
  document list and can be executed without raising. The fallback plan has no
  \<open>documents\<close> property at all, and the executor reads \<open>plan.documents.slice\<close> outside any
  \<open>try\<close>: executing the fallback plan raises for every main page, every world and every
  state. At the failing input (the main page is reachable, the oracle answers with prose)
  the whole analysis gives the error result.
\<close>

theorem fallback_plan_cannot_be_executed:
  "read_prop (createFallbackScrapingPlan mainUrl d) ''documents'' = JUndefined
   \<and> fst (aiExecuteScrapingPlan e (createFallbackScrapingPlan mainUrl d) st) = Inl TypeError
   \<and> fst (aiCreateScrapingPlan planner_prose ''https://www.rvo.nl/s'' fresh)
       = Inr (createFallbackScrapingPlan ''https://www.rvo.nl/s''
               \<lparr>page_url = ''https://www.rvo.nl/s'', page_title = ''<main>'',
                page_html = ''<main>'', page_text = ''<main>''\<rparr>)
   \<and> fst (analyzeSubsidy planner_prose ''https://www.rvo.nl/s'' fresh)
       = Failed ''https://www.rvo.nl/s'' TypeError"
proof -
  have "read_prop (createFallbackScrapingPlan mainUrl d) ''documents'' = JUndefined"
    by (simp add: createFallbackScrapingPlan_def)
  moreover have "fst (aiCreateScrapingPlan planner_prose ''https://www.rvo.nl/s'' fresh)
       = Inr (createFallbackScrapingPlan ''https://www.rvo.nl/s''
               \<lparr>page_url = ''https://www.rvo.nl/s'', page_title = ''<main>'',
                page_html = ''<main>'', page_text = ''<main>''\<rparr>)"
    by code_simp
  moreover have "fst (analyzeSubsidy planner_prose ''https://www.rvo.nl/s'' fresh)
       = Failed ''https://www.rvo.nl/s'' TypeError"
    by code_simp
  ultimately show ?thesis
    using fallback_plan_raises by simp
qed

lemma fallback_plan_fails_analysis:
  assumes "aiCreateScrapingPlan e url st = (Inr (createFallbackScrapingPlan url d), st1)"
  shows "fst (analyzeSubsidy e url st) = Failed url TypeError"
proof -
  obtain r st2 where x: "aiExecuteScrapingPlan e (createFallbackScrapingPlan url d) st1 = (r, st2)"
    by (cases "aiExecuteScrapingPlan e (createFallbackScrapingPlan url d) st1")
  with fallback_plan_raises [of e url d st1] have "r = Inl TypeError" by simp
  with assms x show ?thesis by (simp add: analyzeSubsidy_def)
qed

lemma plan_oracle_failure_ends_in_error:
  assumes "planOracle e = OracleFails"
  shows "is_error_result (fst (analyzeSubsidy e url st))"
proof -
  obtain r st1 where c: "aiCreateScrapingPlan e url st = (r, st1)"
    by (cases "aiCreateScrapingPlan e url st")
  show ?thesis
  proof (cases r)
    case (Inl err)
    with c show ?thesis by (simp add: analyzeSubsidy_def)
  next
    case (Inr plan)
    with c assms obtain d where "plan = createFallbackScrapingPlan url d"
      by (auto simp: aiCreateScrapingPlan_def plan_after_failure_def Let_def
          split: prod.splits sum.splits)
    with c Inr show ?thesis
      using fallback_plan_fails_analysis [of e url st d st1] by simp
  qed
qed

section \<open>The classifier\<close>

lemma build_raises:
  "(content_raises sd \<or> prompt_raises e) \<longleftrightarrow>
       (\<exists>page \<in> set (sd_allPages sd). to_string_raises (page_reason page))
     \<or> (\<exists>doc \<in> set (sd_allDocuments sd). to_string_raises (doc_reason doc))
     \<or> (truthy (attestationSchema e)
        \<and> (nullish (read_prop (attestationSchema e) ''attestation_schema'')
           \<or> (\<exists>label \<in> set (schema_labels
                                (read_prop (attestationSchema e) ''attestation_schema'')).
                 to_string_raises label)))"
  by (simp add: content_raises_def prompt_raises_def Let_def)

lemma aiAnalyzeAllData_replies:
  assumes "classifyOracle e = OracleReplies r"
  shows "aiAnalyzeAllData e sd =
     (if content_raises sd \<or> prompt_raises e then Inl TypeError
      else Inr (parse_requirements e sd (trim r)))"
  using assms by (simp add: aiAnalyzeAllData_def)

lemma aiAnalyzeAllData_fails:
  assumes "classifyOracle e = OracleFails"
  shows "aiAnalyzeAllData e sd =
     (if content_raises sd \<or> prompt_raises e then Inl TypeError
      else Inr (fallbackAnalysis sd))"
  using assms by (simp add: aiAnalyzeAllData_def)

text \<open>
  Claim C3 says that the classification stage never raises on an oracle response that is
  not parseable. The stage puts its content and its prompt together before its \<open>try\<close>,
  and a reason that the plan gave as an object with a property \<open>toString\<close> cannot be
  converted to a string: here such a plan passes the validator, the executor collects its
  page, the response of the oracle would be prose, and the stage raises.
\<close>

theorem classifier_raises_counterexample:
  "validateScrapingPlan odd_plan demo_links = Inr odd_plan
   \<and> fst (aiExecuteScrapingPlan classifier_prose odd_plan fresh) = Inr odd_scraped
   \<and> classifyOracle classifier_prose = OracleReplies ''Sorry, { no JSON here''
   \<and> jsonParse classifier_prose (extract_json (trim ''Sorry, { no JSON here'')) = None
   \<and> aiAnalyzeAllData classifier_prose odd_scraped = Inl TypeError"
  by code_simp

text \<open>
  Claim C3 as amended. For every oracle response that is not parseable as JSON after
  sanitization, the handling of the response returns the fallback requirement set, whose
  attestations and non-attestations are empty sequences and whose note is the non-empty
  string \<open>Fallback analysis - no hardcoded patterns used\<close>, and the classification stage
  returns that set unless its content or its prompt cannot be built; in that case it
  raises a \<open>TypeError\<close>. The content or the prompt cannot be built exactly when the reason
  of a collected page or document cannot be converted to a string, or a schema is loaded
  that has no \<open>attestation_schema\<close> or has a label there that cannot be converted to a
  string.
\<close>

theorem classifier_fallback_total:
  assumes "classifyOracle e = OracleReplies r"
    and "jsonParse e (extract_json (trim r)) = None"
  shows "parse_requirements e sd (trim r) = fallbackAnalysis sd
         \<and> aiAnalyzeAllData e sd =
             (if content_raises sd \<or> prompt_raises e then Inl TypeError
              else Inr (fallbackAnalysis sd))
         \<and> ((content_raises sd \<or> prompt_raises e) \<longleftrightarrow>
               (\<exists>page \<in> set (sd_allPages sd). to_string_raises (page_reason page))
             \<or> (\<exists>doc \<in> set (sd_allDocuments sd). to_string_raises (doc_reason doc))
             \<or> (truthy (attestationSchema e)
                \<and> (nullish (read_prop (attestationSchema e) ''attestation_schema'')
                   \<or> (\<exists>label \<in> set (schema_labels
                                        (read_prop (attestationSchema e) ''attestation_schema'')).
                         to_string_raises label))))
         \<and> attestations (fallbackAnalysis sd) = JArr []
         \<and> non_attestations (fallbackAnalysis sd) = JArr []
         \<and> analysis_notes (fallbackAnalysis sd)
             = JStr ''Fallback analysis - no hardcoded patterns used''"
proof -
  have "parse_requirements e sd (trim r) = fallbackAnalysis sd"
    using assms(2) by (simp add: parse_requirements_def)
  then show ?thesis
    using aiAnalyzeAllData_replies [OF assms(1), of sd] build_raises [of sd e]
    by (simp add: fallbackAnalysis_def)
qed

theorem classifier_fallback_total_witness:
  "classifyOracle classifier_prose = OracleReplies ''Sorry, { no JSON here''
   \<and> extract_json (trim ''Sorry, { no JSON here'') = ''Sorry, { no JSON here''
   \<and> jsonParse classifier_prose ''Sorry, { no JSON here'' = None
   \<and> aiAnalyzeAllData classifier_prose demo_scraped
       = Inr \<lparr>attestations = JArr [], non_attestations = JArr [],
              analysis_notes = JStr ''Fallback analysis - no hardcoded patterns used''\<rparr>
   \<and> aiAnalyzeAllData classifier_prose odd_scraped = Inl TypeError"
proof -
  have h1: "classifyOracle classifier_prose = OracleReplies ''Sorry, { no JSON here''"
    by (simp add: classifier_prose_def)
  have x: "extract_json (trim ''Sorry, { no JSON here'') = ''Sorry, { no JSON here''"
    by code_simp
  have h2: "jsonParse classifier_prose (extract_json (trim ''Sorry, { no JSON here'')) = None"
    by code_simp
  have ok: "\<not> (content_raises demo_scraped \<or> prompt_raises classifier_prose)"
    by code_simp
  have odd: "content_raises odd_scraped"
    by code_simp
  show ?thesis
    using classifier_fallback_total [OF h1 h2, of demo_scraped]
      classifier_fallback_total [OF h1 h2, of odd_scraped] h1 h2 x ok odd
    by (simp add: fallbackAnalysis_def)
qed

text \<open>
  Claim C7 says that a missing \<open>analysis_notes\<close> field defaults to the empty string. The
  code writes \<open>parsed.analysis_notes || 'AI analysis completed'\<close>: for the response \<open>{}\<close>,
  which parses, the note is that string.
\<close>

theorem missing_notes_counterexample:
  "jsonParse demo_env (extract_json (trim ''{}'')) = Some (JObj [])
   \<and> aiAnalyzeAllData classifier_partial no_data
       = Inr \<lparr>attestations = JArr [], non_attestations = JArr [],
              analysis_notes = JStr ''AI analysis completed''\<rparr>
   \<and> JStr ''AI analysis completed'' \<noteq> JStr []"
  by code_simp

text \<open>
  Claim C7 as amended. When the classification response parses as JSON, the handling of
  the response returns a requirement set of which every field is populated. For a parsed
  value other than \<open>null\<close>, each field is the field of the parsed value, or its default
  when that is missing or is any other falsy value: the empty sequence for
  \<open>attestations\<close> and for \<open>non_attestations\<close>, the string \<open>AI analysis completed\<close> for
  \<open>analysis_notes\<close>. For \<open>null\<close> it is the fallback requirement set. The classification
  stage returns that requirement set unless its content or its prompt cannot be built, in
  which case it raises a \<open>TypeError\<close>. The content or the prompt cannot be built exactly
  when the reason of a collected page or document cannot be converted to a string, or a
  schema is loaded that has no \<open>attestation_schema\<close> or has a label there that cannot be
  converted to a string.
\<close>

theorem missing_fields_default:
  assumes "classifyOracle e = OracleReplies r"
    and "jsonParse e (extract_json (trim r)) = Some parsed"
  shows "aiAnalyzeAllData e sd =
           (if content_raises sd \<or> prompt_raises e then Inl TypeError
            else Inr (parse_requirements e sd (trim r)))
         \<and> ((content_raises sd \<or> prompt_raises e) \<longleftrightarrow>
               (\<exists>page \<in> set (sd_allPages sd). to_string_raises (page_reason page))
             \<or> (\<exists>doc \<in> set (sd_allDocuments sd). to_string_raises (doc_reason doc))
             \<or> (truthy (attestationSchema e)
                \<and> (nullish (read_prop (attestationSchema e) ''attestation_schema'')
                   \<or> (\<exists>label \<in> set (schema_labels
                                        (read_prop (attestationSchema e) ''attestation_schema'')).
                         to_string_raises label))))
         \<and> (nullish parsed \<longrightarrow> parse_requirements e sd (trim r) = fallbackAnalysis sd)
         \<and> (\<not> nullish parsed \<longrightarrow>
               parse_requirements e sd (trim r) =
                 \<lparr>attestations = or_else (read_prop parsed ''attestations'') (JArr []),
                  non_attestations = or_else (read_prop parsed ''non_attestations'') (JArr []),
                  analysis_notes =
                    or_else (read_prop parsed ''analysis_notes'') (JStr ''AI analysis completed'')\<rparr>
             \<and> (read_prop parsed ''attestations'' = JUndefined
                  \<or> \<not> truthy (read_prop parsed ''attestations'')
                \<longrightarrow> attestations (parse_requirements e sd (trim r)) = JArr [])
             \<and> (read_prop parsed ''non_attestations'' = JUndefined
                  \<or> \<not> truthy (read_prop parsed ''non_attestations'')
                \<longrightarrow> non_attestations (parse_requirements e sd (trim r)) = JArr [])
             \<and> (read_prop parsed ''analysis_notes'' = JUndefined
                  \<or> \<not> truthy (read_prop parsed ''analysis_notes'')
                \<longrightarrow> analysis_notes (parse_requirements e sd (trim r))
                      = JStr ''AI analysis completed''))
         \<and> truthy (attestations (parse_requirements e sd (trim r)))
         \<and> truthy (non_attestations (parse_requirements e sd (trim r)))
         \<and> truthy (analysis_notes (parse_requirements e sd (trim r)))"
proof -
  have "truthy v \<Longrightarrow> v \<noteq> JUndefined" for v
    by auto
  then have fields: "(nullish parsed \<longrightarrow> parse_requirements e sd (trim r) = fallbackAnalysis sd)
         \<and> (\<not> nullish parsed \<longrightarrow>
               parse_requirements e sd (trim r) =
                 \<lparr>attestations = or_else (read_prop parsed ''attestations'') (JArr []),
                  non_attestations = or_else (read_prop parsed ''non_attestations'') (JArr []),
                  analysis_notes =
                    or_else (read_prop parsed ''analysis_notes'') (JStr ''AI analysis completed'')\<rparr>
             \<and> (read_prop parsed ''attestations'' = JUndefined
                  \<or> \<not> truthy (read_prop parsed ''attestations'')
                \<longrightarrow> attestations (parse_requirements e sd (trim r)) = JArr [])
             \<and> (read_prop parsed ''non_attestations'' = JUndefined
                  \<or> \<not> truthy (read_prop parsed ''non_attestations'')
                \<longrightarrow> non_attestations (parse_requirements e sd (trim r)) = JArr [])
             \<and> (read_prop parsed ''analysis_notes'' = JUndefined
                  \<or> \<not> truthy (read_prop parsed ''analysis_notes'')
                \<longrightarrow> analysis_notes (parse_requirements e sd (trim r))
                      = JStr ''AI analysis completed''))
         \<and> truthy (attestations (parse_requirements e sd (trim r)))
         \<and> truthy (non_attestations (parse_requirements e sd (trim r)))
         \<and> truthy (analysis_notes (parse_requirements e sd (trim r)))"
    using assms(2)
    by (auto simp: parse_requirements_def fallbackAnalysis_def or_else_def)
  show ?thesis
    using fields aiAnalyzeAllData_replies [OF assms(1), of sd] build_raises [of sd e]
    by blast
qed

theorem missing_fields_default_witness:
  "jsonParse classifier_partial (extract_json (trim ''{}'')) = Some (JObj [])
   \<and> read_prop (JObj []) ''analysis_notes'' = JUndefined
   \<and> parse_requirements classifier_partial no_data (trim ''{}'')
       = \<lparr>attestations = JArr [], non_attestations = JArr [],
          analysis_notes = JStr ''AI analysis completed''\<rparr>
   \<and> aiAnalyzeAllData classifier_partial no_data
       = Inr \<lparr>attestations = JArr [], non_attestations = JArr [],
              analysis_notes = JStr ''AI analysis completed''\<rparr>"
proof -
  have h1: "classifyOracle classifier_partial = OracleReplies ''{}''"
    by (simp add: classifier_partial_def)
  have h2: "jsonParse classifier_partial (extract_json (trim ''{}'')) = Some (JObj [])"
    by code_simp
  have ok: "\<not> (content_raises no_data \<or> prompt_raises classifier_partial)"
    by code_simp
  show ?thesis
    using missing_fields_default [OF h1 h2, of no_data] h2 ok
    by (simp add: nullish_def or_else_def)
qed

section \<open>Oracle failures\<close>

text \<open>
  Claim C4 says that an oracle failure at classification time makes the whole run return
  the error result. The failure is caught inside the classification stage, which returns
  the fallback requirement set: here the oracle fails at classification time and the run
  returns a success result.
\<close>

theorem classification_failure_counterexample:
  "classifyOracle classifier_down = OracleFails
   \<and> \<not> is_error_result
         (fst (analyzeSubsidy classifier_down ''https://www.rvo.nl/s'' fresh))"
  by code_simp

text \<open>
  Claim C4 as amended. If the reasoning oracle fails at plan-synthesis time, the whole
  analysis run returns an error result. If it fails at classification time, the
  classification stage returns the fallback requirement set unless its content or its
  prompt cannot be built, and a run whose plan was synthesized and executed returns the
  success result with the fallback requirement set as its requirements, and the error
  result only when the content or the prompt cannot be built. The content or the prompt
  cannot be built exactly when the reason of a collected page or document cannot be
  converted to a string, or a schema is loaded that has no \<open>attestation_schema\<close> or has a
  label there that cannot be converted to a string.
\<close>

theorem oracle_failure_outcome:
  "(planOracle e = OracleFails \<longrightarrow> is_error_result (fst (analyzeSubsidy e url st)))
   \<and> (classifyOracle e = OracleFails \<longrightarrow>
        aiAnalyzeAllData e sd =
          (if content_raises sd \<or> prompt_raises e then Inl TypeError
           else Inr (fallbackAnalysis sd)))
   \<and> (classifyOracle e = OracleFails
       \<and> aiCreateScrapingPlan e url st = (Inr plan, st1)
       \<and> aiExecuteScrapingPlan e plan st1 = (Inr sd, st2)
      \<longrightarrow> analyzeSubsidy e url st =
            (if content_raises sd \<or> prompt_raises e then (Failed url TypeError, st2)
             else (Analyzed \<lparr>res_url = url, res_title = result_title sd,
                             res_requirements = fallbackAnalysis sd,
                             res_pages_analyzed = length (sd_allPages sd),
                             res_ai_scraping_plan = plan\<rparr>, st2)))
   \<and> ((content_raises sd \<or> prompt_raises e) \<longleftrightarrow>
         (\<exists>page \<in> set (sd_allPages sd). to_string_raises (page_reason page))
       \<or> (\<exists>doc \<in> set (sd_allDocuments sd). to_string_raises (doc_reason doc))
       \<or> (truthy (attestationSchema e)
          \<and> (nullish (read_prop (attestationSchema e) ''attestation_schema'')
             \<or> (\<exists>label \<in> set (schema_labels
                                  (read_prop (attestationSchema e) ''attestation_schema'')).
                   to_string_raises label))))"
proof (intro conjI impI)
  show "(content_raises sd \<or> prompt_raises e) \<longleftrightarrow>
         (\<exists>page \<in> set (sd_allPages sd). to_string_raises (page_reason page))
       \<or> (\<exists>doc \<in> set (sd_allDocuments sd). to_string_raises (doc_reason doc))
       \<or> (truthy (attestationSchema e)
          \<and> (nullish (read_prop (attestationSchema e) ''attestation_schema'')
             \<or> (\<exists>label \<in> set (schema_labels
                                  (read_prop (attestationSchema e) ''attestation_schema'')).
                   to_string_raises label)))"
    by (rule build_raises)
next
  assume "planOracle e = OracleFails"
  then show "is_error_result (fst (analyzeSubsidy e url st))"
    by (rule plan_oracle_failure_ends_in_error)
next
  assume "classifyOracle e = OracleFails"
  then show "aiAnalyzeAllData e sd =
          (if content_raises sd \<or> prompt_raises e then Inl TypeError
           else Inr (fallbackAnalysis sd))"
    by (rule aiAnalyzeAllData_fails)
next
  assume a: "classifyOracle e = OracleFails
       \<and> aiCreateScrapingPlan e url st = (Inr plan, st1)
       \<and> aiExecuteScrapingPlan e plan st1 = (Inr sd, st2)"
  then have "aiAnalyzeAllData e sd =
          (if content_raises sd \<or> prompt_raises e then Inl TypeError
           else Inr (fallbackAnalysis sd))"
    by (simp add: aiAnalyzeAllData_fails)
  with a show "analyzeSubsidy e url st =
            (if content_raises sd \<or> prompt_raises e then (Failed url TypeError, st2)
             else (Analyzed \<lparr>res_url = url, res_title = result_title sd,
                             res_requirements = fallbackAnalysis sd,
                             res_pages_analyzed = length (sd_allPages sd),
                             res_ai_scraping_plan = plan\<rparr>, st2))"
    by (simp add: analyzeSubsidy_def)
qed

theorem oracle_failure_outcome_witness:
  "planOracle planner_down = OracleFails
   \<and> is_error_result (fst (analyzeSubsidy planner_down ''https://www.rvo.nl/s'' fresh))
   \<and> classifyOracle classifier_down = OracleFails
   \<and> aiCreateScrapingPlan classifier_down ''https://www.rvo.nl/s'' fresh
       = (Inr demo_valid_plan, after_planning)
   \<and> aiExecuteScrapingPlan classifier_down demo_valid_plan after_planning
       = (Inr demo_scraped, after_crawl)
   \<and> analyzeSubsidy classifier_down ''https://www.rvo.nl/s'' fresh
       = (Analyzed \<lparr>res_url = ''https://www.rvo.nl/s'', res_title = ''<main>'',
                    res_requirements =
                      \<lparr>attestations = JArr [], non_attestations = JArr [],
                       analysis_notes = JStr ''Fallback analysis - no hardcoded patterns used''\<rparr>,
                    res_pages_analyzed = 2,
                    res_ai_scraping_plan = demo_valid_plan\<rparr>, after_crawl)"
proof -
  have p: "planOracle planner_down = OracleFails"
    by (simp add: planner_down_def)
  have c: "classifyOracle classifier_down = OracleFails"
    by (simp add: classifier_down_def)
  have ok: "\<not> (content_raises demo_scraped \<or> prompt_raises classifier_down)"
    by code_simp
  have mk: "aiCreateScrapingPlan classifier_down ''https://www.rvo.nl/s'' fresh
              = (Inr demo_valid_plan, after_planning)"
    by code_simp
  have ex: "aiExecuteScrapingPlan classifier_down demo_valid_plan after_planning
              = (Inr demo_scraped, after_crawl)"
    by code_simp
  have t: "result_title demo_scraped = ''<main>'' \<and> length (sd_allPages demo_scraped) = 2"
    by code_simp
  show ?thesis
    using oracle_failure_outcome [where e = planner_down and url = "''https://www.rvo.nl/s''"
        and st = fresh] p
      oracle_failure_outcome [where e = classifier_down and sd = demo_scraped
        and url = "''https://www.rvo.nl/s''" and st = fresh and plan = demo_valid_plan
        and ?st1.0 = after_planning and ?st2.0 = after_crawl] c ok mk ex t
    by (simp add: fallbackAnalysis_def)
qed

section \<open>Properties of link harvesting\<close>

lemma set_map_filter_eq:
  "set (List.map_filter f xs) = {y. \<exists>x \<in> set xs. f x = Some y}"
  by (induction xs) (auto split: option.splits)

lemma findIndex_first:
  assumes "\<exists>x \<in> set xs. P x"
  shows "\<exists>i < length xs. findIndex P xs = int i \<and> P (xs ! i)"
  using assms
proof (induction xs)
  case Nil
  then show ?case by simp
next
  case (Cons a xs)
  show ?case
  proof (cases "P a")
    case True
    then show ?thesis by auto
  next
    case False
    with Cons.prems have "\<exists>x \<in> set xs. P x" by auto
    from Cons.IH [OF this] obtain i where "i < length xs" "findIndex P xs = int i" "P (xs ! i)"
      by blast
    with False have "Suc i < length (a # xs) \<and> findIndex P (a # xs) = int (Suc i)
                     \<and> P ((a # xs) ! Suc i)"
      by (simp add: Let_def)
    then show ?thesis by blast
  qed
qed

lemma uniqueLinks_subset: "set (uniqueLinks ls) \<subseteq> set ls"
  by (auto simp: uniqueLinks_def in_set_enumerate_eq)

lemma uniqueLinks_urls: "link_url ` set (uniqueLinks ls) = link_url ` set ls"
proof
  show "link_url ` set (uniqueLinks ls) \<subseteq> link_url ` set ls"
    using uniqueLinks_subset by blast
next
  show "link_url ` set ls \<subseteq> link_url ` set (uniqueLinks ls)"
  proof
    fix u assume "u \<in> link_url ` set ls"
    then have "\<exists>x \<in> set ls. link_url x = u" by auto
    from findIndex_first [of ls "\<lambda>l'. link_url l' = u", OF this]
    obtain i where i: "i < length ls" "findIndex (\<lambda>l'. link_url l' = u) ls = int i"
      "link_url (ls ! i) = u" by blast
    then have "(i, ls ! i) \<in> set (enumerate 0 ls)"
      by (simp add: in_set_enumerate_eq)
    with i have "ls ! i \<in> set (uniqueLinks ls)"
      by (force simp: uniqueLinks_def)
    with i show "u \<in> link_url ` set (uniqueLinks ls)" by force
  qed
qed

lemma startsWith_hash:
  "startsWith href ''#'' \<Longrightarrow> \<not> startsWith href ''/'' \<and> \<not> startsWith href ''http''"
  by (cases href) (auto simp: startsWith_def)

lemma actual_link_Some:
  "actual_link visited a = Some l \<longleftrightarrow>
     fst a \<noteq> [] \<and> trim (snd a) \<noteq> [] \<and> \<not> startsWith (fst a) ''#''
     \<and> str_includes (if startsWith (fst a) ''/'' then baseUrl @ fst a else fst a) ''rvo.nl''
     \<and> (if startsWith (fst a) ''/'' then baseUrl @ fst a else fst a) \<notin> visited
     \<and> l = \<lparr>link_url = (if startsWith (fst a) ''/'' then baseUrl @ fst a else fst a),
             link_text = take 100 (trim (snd a)), link_href = fst a\<rparr>"
  using startsWith_hash [of "fst a"]
  by (auto simp: actual_link_def Let_def)

lemma document_link_of_Some:
  "document_link_of visited a = Some l \<longleftrightarrow>
     fst a \<noteq> []
     \<and> list_ex (\<lambda>ext. str_includes
                  (toLowerCase (if startsWith (fst a) ''/'' then baseUrl @ fst a else fst a)) ext)
          documentExtensions
     \<and> (if startsWith (fst a) ''/'' then baseUrl @ fst a else fst a) \<notin> visited
     \<and> l = \<lparr>link_url = (if startsWith (fst a) ''/'' then baseUrl @ fst a else fst a),
             link_text = take 100 (trim (snd a)), link_href = fst a,
             link_type = getDocumentType
                (if startsWith (fst a) ''/'' then baseUrl @ fst a else fst a)\<rparr>"
  by (auto simp: document_link_of_def Let_def)

text \<open>
  Claim C5 says that the page-link set and the document-link set are disjoint. Nothing in
  \<open>extractActualLinks\<close> looks at the extension of a link: on the main page of the small
  site the anchor to \<open>/doc/plan.pdf\<close> is in both.
\<close>

theorem harvest_disjoint_counterexample:
  "map link_url (extractActualLinks demo_env fresh ''<main>'')
     = [''https://www.rvo.nl/onderwerpen/a'', ''https://www.rvo.nl/doc/plan.pdf'']
   \<and> map link_url (extractDocumentLinks demo_env fresh ''<main>'')
     = [''https://www.rvo.nl/doc/plan.pdf'']"
  by code_simp

text \<open>
  Claim C5 as amended. The url of an anchor is its \<open>href\<close>, put after the site origin when
  it starts with a slash. The urls of the document links are exactly the urls of the
  anchors with a non-empty \<open>href\<close> whose url, in lower case, contains one of the document
  extensions and is not yet visited. The urls of the page links are exactly the urls of the
  anchors with a non-empty \<open>href\<close> that is not a fragment and with a non-empty text whose
  url contains \<open>rvo.nl\<close> and is not yet visited. So a document link is not excluded from
  the page links: the url of an anchor that meets both descriptions is in both sets.
\<close>

theorem document_link_also_page_link:
  "link_url ` set (extractDocumentLinks e st html)
     = {fullUrl. \<exists>a \<in> set (anchors e html).
          fst a \<noteq> []
          \<and> fullUrl = (if startsWith (fst a) ''/'' then baseUrl @ fst a else fst a)
          \<and> list_ex (\<lambda>ext. str_includes (toLowerCase fullUrl) ext) documentExtensions
          \<and> fullUrl \<notin> visitedUrls st}
   \<and> link_url ` set (extractActualLinks e st html)
     = {fullUrl. \<exists>a \<in> set (anchors e html).
          fst a \<noteq> [] \<and> \<not> startsWith (fst a) ''#'' \<and> trim (snd a) \<noteq> []
          \<and> fullUrl = (if startsWith (fst a) ''/'' then baseUrl @ fst a else fst a)
          \<and> str_includes fullUrl ''rvo.nl''
          \<and> fullUrl \<notin> visitedUrls st}
   \<and> (\<forall>a \<in> set (anchors e html). \<forall>fullUrl.
         fst a \<noteq> [] \<and> \<not> startsWith (fst a) ''#'' \<and> trim (snd a) \<noteq> []
         \<and> fullUrl = (if startsWith (fst a) ''/'' then baseUrl @ fst a else fst a)
         \<and> list_ex (\<lambda>ext. str_includes (toLowerCase fullUrl) ext) documentExtensions
         \<and> str_includes fullUrl ''rvo.nl''
         \<and> fullUrl \<notin> visitedUrls st
         \<longrightarrow> fullUrl \<in> link_url ` set (extractDocumentLinks e st html)
                         \<inter> link_url ` set (extractActualLinks e st html))"
proof -
  have docs: "link_url ` set (extractDocumentLinks e st html)
     = {fullUrl. \<exists>a \<in> set (anchors e html).
          fst a \<noteq> []
          \<and> fullUrl = (if startsWith (fst a) ''/'' then baseUrl @ fst a else fst a)
          \<and> list_ex (\<lambda>ext. str_includes (toLowerCase fullUrl) ext) documentExtensions
          \<and> fullUrl \<notin> visitedUrls st}" (is "?D = ?DS")
  proof (intro set_eqI iffI)
    fix u assume "u \<in> ?D"
    then obtain l a where "a \<in> set (anchors e html)"
      "document_link_of (visitedUrls st) a = Some l" "u = link_url l"
      by (auto simp: extractDocumentLinks_def set_map_filter_eq)
    then show "u \<in> ?DS"
      by (auto simp: document_link_of_Some)
  next
    fix u assume "u \<in> ?DS"
    then obtain a where a: "a \<in> set (anchors e html)" "fst a \<noteq> []"
      "u = (if startsWith (fst a) ''/'' then baseUrl @ fst a else fst a)"
      "list_ex (\<lambda>ext. str_includes (toLowerCase u) ext) documentExtensions"
      "u \<notin> visitedUrls st"
      by blast
    then have "document_link_of (visitedUrls st) a
        = Some \<lparr>link_url = u, link_text = take 100 (trim (snd a)), link_href = fst a,
                link_type = getDocumentType u\<rparr>"
      by (simp add: document_link_of_Some)
    with a(1) have "\<lparr>link_url = u, link_text = take 100 (trim (snd a)), link_href = fst a,
                link_type = getDocumentType u\<rparr> \<in> set (extractDocumentLinks e st html)"
      by (auto simp: extractDocumentLinks_def set_map_filter_eq)
    then show "u \<in> ?D" by force
  qed
  have pages: "link_url ` set (extractActualLinks e st html)
     = {fullUrl. \<exists>a \<in> set (anchors e html).
          fst a \<noteq> [] \<and> \<not> startsWith (fst a) ''#'' \<and> trim (snd a) \<noteq> []
          \<and> fullUrl = (if startsWith (fst a) ''/'' then baseUrl @ fst a else fst a)
          \<and> str_includes fullUrl ''rvo.nl''
          \<and> fullUrl \<notin> visitedUrls st}" (is "?P = ?PS")
  proof (intro set_eqI iffI)
    fix u assume "u \<in> ?P"
    then have "u \<in> link_url `
        set (List.map_filter (actual_link (visitedUrls st)) (anchors e html))"
      by (simp add: extractActualLinks_def uniqueLinks_urls)
    then obtain l a where "a \<in> set (anchors e html)"
      "actual_link (visitedUrls st) a = Some l" "u = link_url l"
      by (auto simp: set_map_filter_eq)
    then show "u \<in> ?PS"
      by (auto simp: actual_link_Some)
  next
    fix u assume "u \<in> ?PS"
    then obtain a where a: "a \<in> set (anchors e html)" "fst a \<noteq> []"
      "\<not> startsWith (fst a) ''#''" "trim (snd a) \<noteq> []"
      "u = (if startsWith (fst a) ''/'' then baseUrl @ fst a else fst a)"
      "str_includes u ''rvo.nl''" "u \<notin> visitedUrls st"
      by blast
    then have "actual_link (visitedUrls st) a
        = Some \<lparr>link_url = u, link_text = take 100 (trim (snd a)), link_href = fst a\<rparr>"
      by (simp add: actual_link_Some)
    with a(1) have "\<lparr>link_url = u, link_text = take 100 (trim (snd a)), link_href = fst a\<rparr>
        \<in> set (List.map_filter (actual_link (visitedUrls st)) (anchors e html))"
      by (auto simp: set_map_filter_eq)
    then have "u \<in> link_url `
        set (List.map_filter (actual_link (visitedUrls st)) (anchors e html))"
      by force
    then show "u \<in> ?P"
      by (simp add: extractActualLinks_def uniqueLinks_urls)
  qed
  have both: "\<forall>a \<in> set (anchors e html). \<forall>fullUrl.
         fst a \<noteq> [] \<and> \<not> startsWith (fst a) ''#'' \<and> trim (snd a) \<noteq> []
         \<and> fullUrl = (if startsWith (fst a) ''/'' then baseUrl @ fst a else fst a)
         \<and> list_ex (\<lambda>ext. str_includes (toLowerCase fullUrl) ext) documentExtensions
         \<and> str_includes fullUrl ''rvo.nl''
         \<and> fullUrl \<notin> visitedUrls st
         \<longrightarrow> fullUrl \<in> link_url ` set (extractDocumentLinks e st html)
                         \<inter> link_url ` set (extractActualLinks e st html)"
    unfolding docs pages by blast
  from docs pages both show ?thesis by (intro conjI)
qed

theorem document_link_also_page_link_witness:
  "(''/doc/plan.pdf'', ''Plan'') \<in> set (anchors demo_env ''<main>'')
   \<and> ''https://www.rvo.nl/doc/plan.pdf''
       \<in> link_url ` set (extractDocumentLinks demo_env fresh ''<main>'')
   \<and> ''https://www.rvo.nl/doc/plan.pdf''
       \<in> link_url ` set (extractActualLinks demo_env fresh ''<main>'')"
proof -
  have h1: "(''/doc/plan.pdf'', ''Plan'') \<in> set (anchors demo_env ''<main>'')"
    by code_simp
  have h2: "fst (''/doc/plan.pdf'', ''Plan'') \<noteq> []
            \<and> \<not> startsWith (fst (''/doc/plan.pdf'', ''Plan'')) ''#''
            \<and> trim (snd (''/doc/plan.pdf'', ''Plan'')) \<noteq> []
            \<and> ''https://www.rvo.nl/doc/plan.pdf''
                = (if startsWith (fst (''/doc/plan.pdf'', ''Plan'')) ''/''
                   then baseUrl @ fst (''/doc/plan.pdf'', ''Plan'')
                   else fst (''/doc/plan.pdf'', ''Plan''))
            \<and> list_ex (\<lambda>ext. str_includes (toLowerCase ''https://www.rvo.nl/doc/plan.pdf'') ext)
                 documentExtensions
            \<and> str_includes ''https://www.rvo.nl/doc/plan.pdf'' ''rvo.nl''
            \<and> ''https://www.rvo.nl/doc/plan.pdf'' \<notin> visitedUrls fresh"
    by code_simp
  from document_link_also_page_link [of demo_env fresh "''<main>''"]
  have "\<forall>a \<in> set (anchors demo_env ''<main>''). \<forall>fullUrl.
         fst a \<noteq> [] \<and> \<not> startsWith (fst a) ''#'' \<and> trim (snd a) \<noteq> []
         \<and> fullUrl = (if startsWith (fst a) ''/'' then baseUrl @ fst a else fst a)
         \<and> list_ex (\<lambda>ext. str_includes (toLowerCase fullUrl) ext) documentExtensions
         \<and> str_includes fullUrl ''rvo.nl''
         \<and> fullUrl \<notin> visitedUrls fresh
         \<longrightarrow> fullUrl \<in> link_url ` set (extractDocumentLinks demo_env fresh ''<main>'')
                         \<inter> link_url ` set (extractActualLinks demo_env fresh ''<main>'')"
    by blast
  with h1 h2 have "''https://www.rvo.nl/doc/plan.pdf''
      \<in> link_url ` set (extractDocumentLinks demo_env fresh ''<main>'')
          \<inter> link_url ` set (extractActualLinks demo_env fresh ''<main>'')"
    by blast
  with h1 show ?thesis by blast
qed

end
